theory Spec2Isabelle
  imports Complex_Main
begin

section \<open>Floating-point numbers\<close>

text \<open>
  The numbers of the program are IEEE-754 binary64 floats.  A finite float is modelled by
  the real it denotes, and an operation by the exact operation followed by rounding to the
  nearest float, ties to the even significand.  The sign of zero is not modelled.
\<close>

text \<open>Rounding a real to the nearest integer, a tie to the even one.\<close>

definition round_even :: "real \<Rightarrow> int" where
  "round_even y =
     (let f = \<lfloor>y\<rfloor>; d = y - of_int f
      in if d < 1 / 2 then f else if 1 / 2 < d then f + 1 else if even f then f else f + 1)"

text \<open>
  The binary exponent of a magnitude \<open>a\<close>: the largest \<open>e\<close> from \<open>-1022\<close> to \<open>1023\<close> with
  \<open>2 ^ e \<le> a\<close>, found by a search from \<open>k - 1022\<close> downwards, and \<open>-1022\<close> for the
  subnormal magnitudes below.
\<close>

fun find_exp :: "nat \<Rightarrow> real \<Rightarrow> int" where
  "find_exp 0 a = - 1022"
| "find_exp (Suc k) a =
     (if 2 powi (int (Suc k) - 1022) \<le> a then int (Suc k) - 1022 else find_exp k a)"

text \<open>The exponent of the unit in the last place of \<open>x\<close>: 53 significant bits.\<close>

definition fexp :: "real \<Rightarrow> int" where
  "fexp x = find_exp 2045 \<bar>x\<bar> - 52"

text \<open>The float nearest to \<open>x\<close>, while \<open>x\<close> is within the range of the finite floats.\<close>

definition rnd64 :: "real \<Rightarrow> real" where
  "rnd64 x = of_int (round_even (x / 2 powi fexp x)) * 2 powi fexp x"

text \<open>
  The values of the samples: the finite floats and the three special values.  A result
  that rounds to \<open>2 ^ 1024\<close> or beyond overflows to an infinity.
\<close>

datatype fval = Fin real | PInf | NInf | NaN


definition fl64 :: "real \<Rightarrow> fval" where
  "fl64 x =
     (let y = rnd64 x
      in if 2 powi 1024 \<le> \<bar>y\<bar> then (if 0 < y then PInf else NInf) else Fin y)"

text \<open>
  The arithmetic is written once, over the rounding \<open>rd\<close> that turns the exact result of
  an operation on finite values into a value.  The program runs with \<open>fl64\<close>; with \<open>Fin\<close>
  for \<open>rd\<close> the arithmetic is exact.
\<close>

type_synonym rounding = "real \<Rightarrow> fval"

fun fneg :: "fval \<Rightarrow> fval" where
  "fneg (Fin x) = Fin (- x)"
| "fneg PInf = NInf"
| "fneg NInf = PInf"
| "fneg NaN = NaN"

fun fadd :: "rounding \<Rightarrow> fval \<Rightarrow> fval \<Rightarrow> fval" where
  "fadd rd NaN y = NaN"
| "fadd rd x NaN = NaN"
| "fadd rd (Fin x) (Fin y) = rd (x + y)"
| "fadd rd (Fin x) PInf = PInf"
| "fadd rd (Fin x) NInf = NInf"
| "fadd rd PInf (Fin y) = PInf"
| "fadd rd NInf (Fin y) = NInf"
| "fadd rd PInf PInf = PInf"
| "fadd rd NInf NInf = NInf"
| "fadd rd PInf NInf = NaN"
| "fadd rd NInf PInf = NaN"

definition fsub :: "rounding \<Rightarrow> fval \<Rightarrow> fval \<Rightarrow> fval" where
  "fsub rd x y = fadd rd x (fneg y)"

text \<open>The sign of a value: \<open>1\<close>, \<open>0\<close> or \<open>-1\<close>; \<open>NaN\<close> has none.\<close>

fun fsign :: "fval \<Rightarrow> int option" where
  "fsign (Fin x) = Some (if x > 0 then 1 else if x < 0 then - 1 else 0)"
| "fsign PInf = Some 1"
| "fsign NInf = Some (- 1)"
| "fsign NaN = None"

definition inf_of_sign :: "int \<Rightarrow> fval" where
  "inf_of_sign s = (if s > 0 then PInf else if s < 0 then NInf else NaN)"

fun fmul :: "rounding \<Rightarrow> fval \<Rightarrow> fval \<Rightarrow> fval" where
  "fmul rd (Fin x) (Fin y) = rd (x * y)"
| "fmul rd x y = (case (fsign x, fsign y) of
      (Some s, Some t) \<Rightarrow> inf_of_sign (s * t)
    | _ \<Rightarrow> NaN)"

text \<open>
  Division of arrays in numpy does not raise: a finite non-zero value divided by zero is
  an infinity, and \<open>0 / 0\<close> is \<open>NaN\<close>.
\<close>

fun fdiv :: "rounding \<Rightarrow> fval \<Rightarrow> fval \<Rightarrow> fval" where
  "fdiv rd NaN y = NaN"
| "fdiv rd x NaN = NaN"
| "fdiv rd (Fin x) (Fin y) =
     (if y = 0 then (if x > 0 then PInf else if x < 0 then NInf else NaN) else rd (x / y))"
| "fdiv rd (Fin x) PInf = Fin 0"
| "fdiv rd (Fin x) NInf = Fin 0"
| "fdiv rd PInf (Fin y) = (if y < 0 then NInf else PInf)"
| "fdiv rd NInf (Fin y) = (if y < 0 then PInf else NInf)"
| "fdiv rd PInf PInf = NaN"
| "fdiv rd PInf NInf = NaN"
| "fdiv rd NInf PInf = NaN"
| "fdiv rd NInf NInf = NaN"

fun fsqrt :: "rounding \<Rightarrow> fval \<Rightarrow> fval" where
  "fsqrt rd (Fin x) = (if x < 0 then NaN else rd (sqrt x))"
| "fsqrt rd PInf = PInf"
| "fsqrt rd NInf = NaN"
| "fsqrt rd NaN = NaN"

section \<open>Python and library primitives\<close>

datatype error = IndexError | ValueError

text \<open>\<open>int(x)\<close> on a float: truncation toward zero.\<close>

definition py_int :: "real \<Rightarrow> int" where
  "py_int x = (if x \<ge> 0 then \<lfloor>x\<rfloor> else \<lceil>x\<rceil>)"

text \<open>
  A slice bound \<open>k\<close> on a sequence of length \<open>n\<close>: a negative bound counts from the end,
  and the result is clamped to \<open>0 .. n\<close>.
\<close>

definition slice_bound :: "int \<Rightarrow> nat \<Rightarrow> nat" where
  "slice_bound k n =
     (if k < 0 then (if k + int n < 0 then 0 else nat (k + int n))
      else (if k > int n then n else nat k))"

text \<open>\<open>xs[s:e]\<close>: empty when the adjusted start is not below the adjusted end.\<close>

definition py_slice :: "'a list \<Rightarrow> int \<Rightarrow> int \<Rightarrow> 'a list" where
  "py_slice xs s e =
     (let lo = slice_bound s (length xs); hi = slice_bound e (length xs)
      in take (hi - lo) (drop lo xs))"

text \<open>\<open>np.where(ts == event)[0]\<close>: the indices at which \<open>ts\<close> equals \<open>event\<close>, ascending.\<close>

definition np_where_eq :: "real list \<Rightarrow> real \<Rightarrow> nat list" where
  "np_where_eq ts event = filter (\<lambda>i. ts ! i = event) [0..<length ts]"

text \<open>\<open>a[0]\<close>: raises on an empty array.\<close>

definition index0 :: "'a list \<Rightarrow> error + 'a" where
  "index0 xs = (case xs of [] \<Rightarrow> Inl IndexError | x # _ \<Rightarrow> Inr x)"

text \<open>
  \<open>pd.DataFrame(rows)\<close> on a list of lists: one row per list, as many columns as the
  longest list has elements, a shorter row filled up with \<open>NaN\<close>, the missing-value marker.
\<close>

definition max_len :: "'a list list \<Rightarrow> nat" where
  "max_len rows = fold (\<lambda>r m. max (length r) m) rows 0"

definition DataFrame :: "fval list list \<Rightarrow> fval list list" where
  "DataFrame rows = map (\<lambda>r. r @ replicate (max_len rows - length r) NaN) rows"

section \<open>The continuous-variable class\<close>

record cont_var =
  sr :: real
  signal :: "fval list"
  timestamps :: "real list"
  name :: "string option"
  annotations :: "(string \<times> string) list option"

section \<open>Peri-event windows\<close>

text \<open>
  The bounds of a window are computed in floats: the product and then the difference or
  the sum are each rounded, and \<open>int\<close> truncates the result.  The loop of the timestamp
  branch; \<open>trials\<close> is the list built so far.
\<close>

fun peh_loop_ts :: "cont_var \<Rightarrow> real \<times> real \<Rightarrow> real list \<Rightarrow> fval list list
    \<Rightarrow> error + fval list list" where
  "peh_loop_ts data min_max [] trials = Inr trials"
| "peh_loop_ts data min_max (event # ref_ts) trials =
     (case index0 (np_where_eq (timestamps data) event) of
        Inl e \<Rightarrow> Inl e
      | Inr idx_evt \<Rightarrow>
          (let start = rnd64 (real idx_evt - rnd64 (\<bar>fst min_max\<bar> * sr data));
               end = rnd64 (real idx_evt + rnd64 (\<bar>snd min_max\<bar> * sr data));
               c_trial = py_slice (signal data) (py_int start) (py_int end)
           in peh_loop_ts data min_max ref_ts (trials @ [c_trial])))"

text \<open>The loop of the index branch.\<close>

fun peh_loop_idx :: "cont_var \<Rightarrow> real \<times> real \<Rightarrow> real list \<Rightarrow> fval list list
    \<Rightarrow> fval list list" where
  "peh_loop_idx data min_max [] trials = trials"
| "peh_loop_idx data min_max (event # ref_ts) trials =
     (let start = rnd64 (event - rnd64 (\<bar>fst min_max\<bar> * sr data));
          end = rnd64 (event + rnd64 (\<bar>snd min_max\<bar> * sr data));
          c_trial = py_slice (signal data) (py_int start) (py_int end)
      in peh_loop_idx data min_max ref_ts (trials @ [c_trial]))"

definition cont_var_peh :: "cont_var \<Rightarrow> real list \<Rightarrow> real \<times> real \<Rightarrow> string option \<Rightarrow> bool
    \<Rightarrow> error + fval list list" where
  "cont_var_peh data ref_ts min_max nm idx =
     (if \<not> idx then
        (case peh_loop_ts data min_max ref_ts [] of
           Inl e \<Rightarrow> Inl e
         | Inr trials \<Rightarrow> Inr (DataFrame trials))
      else Inr (DataFrame (peh_loop_idx data min_max ref_ts [])))"

section \<open>Conditioning of photometry recordings\<close>

text \<open>
  Objects live in a store, addressed by references: a method takes the reference \<open>self\<close>
  and the store, and returns the reference it returns together with the store it leaves.
\<close>

type_synonym ref = nat

type_synonym heap = "ref \<Rightarrow> cont_var"

text \<open>
  \<open>scipy.signal.butter\<close> and \<open>scipy.signal.filtfilt\<close> are not part of the program: they
  are parameters of the two filtering methods.  Each may raise (\<open>butter\<close> on a critical
  frequency outside the open interval from zero to half the sampling rate, \<open>filtfilt\<close> on
  a signal not longer than its padding).
\<close>

datatype btype = High | Low | Bandpass | Bandstop

datatype padtype = Odd | Even | Constant | NoPad

type_synonym butter_fn = "nat \<Rightarrow> real \<Rightarrow> btype \<Rightarrow> real \<Rightarrow> error + fval list \<times> fval list"

type_synonym filtfilt_fn = "fval list \<Rightarrow> fval list \<Rightarrow> fval list \<Rightarrow> padtype \<Rightarrow> error + fval list"

definition debleach :: "butter_fn \<Rightarrow> filtfilt_fn \<Rightarrow> ref \<Rightarrow> real \<Rightarrow> heap \<Rightarrow> error + ref \<times> heap" where
  "debleach butter filtfilt self low h =
     (case butter 3 low High (sr (h self)) of
        Inl e \<Rightarrow> Inl e
      | Inr (b, a) \<Rightarrow>
          (case filtfilt b a (signal (h self)) Even of
             Inl e \<Rightarrow> Inl e
           | Inr y \<Rightarrow> Inr (self, h(self := (h self)\<lparr>signal := y\<rparr>))))"

definition lp_filter :: "butter_fn \<Rightarrow> filtfilt_fn \<Rightarrow> ref \<Rightarrow> real \<Rightarrow> heap \<Rightarrow> error + ref \<times> heap" where
  "lp_filter butter filtfilt self high h =
     (case butter 3 high Low (sr (h self)) of
        Inl e \<Rightarrow> Inl e
      | Inr (b, a) \<Rightarrow>
          (case filtfilt b a (signal (h self)) Even of
             Inl e \<Rightarrow> Inl e
           | Inr y \<Rightarrow> Inr (self, h(self := (h self)\<lparr>signal := y\<rparr>))))"

text \<open>
  The summation of \<open>np.add.reduce\<close> over a contiguous array of floats, which \<open>np.mean\<close>
  and \<open>np.std\<close> use: fewer than 8 elements are added one after the other; up to 128
  elements are added into 8 accumulators, element \<open>i\<close> into accumulator \<open>i mod 8\<close>, the
  accumulators summed in pairs and the elements beyond the last full block of 8 added one
  after the other; a longer array is split near its middle, at a multiple of 8.
\<close>

fun add_seq :: "rounding \<Rightarrow> fval \<Rightarrow> fval list \<Rightarrow> fval" where
  "add_seq rd res [] = res"
| "add_seq rd res (x # xs) = add_seq rd (fadd rd res x) xs"

fun add_blocks :: "rounding \<Rightarrow> fval list \<Rightarrow> fval list \<Rightarrow> fval list \<times> fval list" where
  "add_blocks rd r xs =
     (if length xs < 8 then (r, xs)
      else add_blocks rd (map2 (fadd rd) r (take 8 xs)) (drop 8 xs))"

definition sum8 :: "rounding \<Rightarrow> fval list \<Rightarrow> fval" where
  "sum8 rd r =
     fadd rd (fadd rd (fadd rd (r ! 0) (r ! 1)) (fadd rd (r ! 2) (r ! 3)))
       (fadd rd (fadd rd (r ! 4) (r ! 5)) (fadd rd (r ! 6) (r ! 7)))"

fun pairwise_sum :: "rounding \<Rightarrow> fval list \<Rightarrow> fval" where
  "pairwise_sum rd a =
     (if length a < 8 then add_seq rd (Fin 0) a
      else if length a \<le> 128 then
        (case add_blocks rd (take 8 a) (drop 8 a) of
           (r, rest) \<Rightarrow> add_seq rd (sum8 rd r) rest)
      else fadd rd
             (pairwise_sum rd (take (length a div 2 - length a div 2 mod 8) a))
             (pairwise_sum rd (drop (length a div 2 - length a div 2 mod 8) a)))"

definition np_add_reduce :: "rounding \<Rightarrow> fval list \<Rightarrow> fval" where
  "np_add_reduce rd a = fadd rd (Fin 0) (pairwise_sum rd a)"

text \<open>\<open>np.mean\<close>: the sum divided by the number of elements.\<close>

definition np_mean :: "rounding \<Rightarrow> fval list \<Rightarrow> fval" where
  "np_mean rd xs = fdiv rd (np_add_reduce rd xs) (Fin (real (length xs)))"

text \<open>
  \<open>np.std\<close> with its default \<open>ddof = 0\<close>: the square root of the mean of the squared
  deviations from the mean.
\<close>

definition np_std :: "rounding \<Rightarrow> fval list \<Rightarrow> fval" where
  "np_std rd xs =
     (let arrmean = np_mean rd xs;
          x = map (\<lambda>v. fsub rd v arrmean) xs;
          x2 = map (\<lambda>v. fmul rd v v) x
      in fsqrt rd (fdiv rd (np_add_reduce rd x2) (Fin (real (length xs)))))"

text \<open>The method, over a rounding; the program's method runs with \<open>fl64\<close>.\<close>

definition zscore_rd :: "rounding \<Rightarrow> ref \<Rightarrow> heap \<Rightarrow> ref \<times> heap" where
  "zscore_rd rd self h =
     (let avg = np_mean rd (signal (h self));
          std = np_std rd (signal (h self));
          z_score = map (\<lambda>x. fdiv rd (fsub rd x avg) std) (signal (h self))
      in (self, h(self := (h self)\<lparr>signal := z_score\<rparr>)))"

definition zscore :: "ref \<Rightarrow> heap \<Rightarrow> ref \<times> heap" where
  "zscore self h = zscore_rd fl64 self h"

section \<open>Notions used to state the properties\<close>

text \<open>The position of the first element of \<open>ts\<close> equal to \<open>r\<close> (the length if there is none).\<close>

fun first_idx :: "real list \<Rightarrow> real \<Rightarrow> nat" where
  "first_idx [] r = 0"
| "first_idx (t # ts) r = (if t = r then 0 else Suc (first_idx ts r))"

text \<open>The trial both loops cut out around the position \<open>i\<close>: their \<open>c_trial\<close>.\<close>

definition window_at :: "cont_var \<Rightarrow> real \<times> real \<Rightarrow> real \<Rightarrow> fval list" where
  "window_at data min_max i =
     py_slice (signal data) (py_int (rnd64 (i - rnd64 (\<bar>fst min_max\<bar> * sr data))))
       (py_int (rnd64 (i + rnd64 (\<bar>snd min_max\<bar> * sr data))))"

text \<open>
  The window bounds as the specification writes them: the sample count of each side is
  floored before it is subtracted from, or added to, the index.
\<close>

definition spec_start :: "int \<Rightarrow> real \<Rightarrow> real \<Rightarrow> int" where
  "spec_start i before rate = i - \<lfloor>\<bar>before\<bar> * rate\<rfloor>"

definition spec_end :: "int \<Rightarrow> real \<Rightarrow> real \<Rightarrow> int" where
  "spec_end i after rate = i + \<lfloor>\<bar>after\<bar> * rate\<rfloor>"

text \<open>
  The slice as the specification describes it at the edges: both bounds clamped to the
  signal, none counted from its end.
\<close>

definition truncated_slice :: "'a list \<Rightarrow> int \<Rightarrow> int \<Rightarrow> 'a list" where
  "truncated_slice xs s e =
     take (nat (min e (int (length xs))) - nat (max s 0)) (drop (nat (max s 0)) xs)"

text \<open>
  A recording of 100 samples at 10 samples per time unit, the sample at position \<open>k\<close>
  having the value \<open>k\<close> and the timestamp \<open>k / 10\<close>.
\<close>

definition rec100 :: cont_var where
  "rec100 = \<lparr>sr = 10, signal = map (\<lambda>k. Fin (real k)) [0..<100],
     timestamps = map (\<lambda>k. real k / 10) [0..<100], name = None, annotations = None\<rparr>"



text \<open>
  Between the stores \<open>h\<close> and \<open>h'\<close> nothing but the signal of the object at \<open>self\<close> has
  changed.
\<close>

definition only_signal_changed :: "ref \<Rightarrow> heap \<Rightarrow> heap \<Rightarrow> bool" where
  "only_signal_changed self h h' \<longleftrightarrow>
     timestamps (h' self) = timestamps (h self) \<and> sr (h' self) = sr (h self) \<and>
     name (h' self) = name (h self) \<and> annotations (h' self) = annotations (h self) \<and>
     (\<forall>p. p \<noteq> self \<longrightarrow> h' p = h p)"

text \<open>
  One instance of the two library parameters, for concrete runs: the design returns the
  coefficients \<open>b = [1]\<close>, \<open>a = [1]\<close> of the filter that passes every signal unchanged and
  raises on a critical frequency outside the open interval from zero to half the sampling
  rate; the application raises on a signal not longer than the default padding and returns
  its input otherwise.  The properties below hold for every instance.
\<close>

definition unit_butter :: butter_fn where
  "unit_butter N Wn bt fs =
     (if 0 < Wn \<and> Wn < fs / 2 then Inr ([Fin 1], [Fin 1]) else Inl ValueError)"

definition unit_filtfilt :: filtfilt_fn where
  "unit_filtfilt b a x p =
     (if length x \<le> 3 * max (length a) (length b) then Inl ValueError else Inr x)"

text \<open>Two short recordings, one of them constant, and the store that holds one object.\<close>

definition two_samples :: cont_var where
  "two_samples = \<lparr>sr = 1, signal = [Fin 1, Fin 3], timestamps = [0, 1],
     name = None, annotations = None\<rparr>"


definition store_of :: "cont_var \<Rightarrow> heap" where
  "store_of obj = (\<lambda>_. obj)"

text \<open>
  A second instance of the library parameters, one that records how it is called: the
  design returns its order and critical frequency as the coefficients \<open>b\<close> and its kind
  and sampling frequency as the coefficients \<open>a\<close>; the application returns these
  coefficients followed by a number for the padding.
\<close>

definition probe_butter :: butter_fn where
  "probe_butter N Wn bt fs =
     Inr ([Fin (real N), Fin Wn],
          [Fin (case bt of High \<Rightarrow> 1 | Low \<Rightarrow> 2 | Bandpass \<Rightarrow> 3 | Bandstop \<Rightarrow> 4), Fin fs])"

definition probe_filtfilt :: filtfilt_fn where
  "probe_filtfilt b a x p =
     Inr (b @ a @ [Fin (case p of Odd \<Rightarrow> 1 | Even \<Rightarrow> 2 | Constant \<Rightarrow> 3 | NoPad \<Rightarrow> 4)])"



section \<open>Facts about rounding\<close>

lemma round_even_bounds: "\<lfloor>y\<rfloor> \<le> round_even y \<and> round_even y \<le> \<lfloor>y\<rfloor> + 1"
  by (simp add: round_even_def Let_def)

lemma round_even_of_int: "round_even (of_int k) = k"
  by (simp add: round_even_def Let_def)

lemma round_even_ge: "of_int j \<le> y \<Longrightarrow> j \<le> round_even y"
proof -
  assume "of_int j \<le> y"
  then have "j \<le> \<lfloor>y\<rfloor>" by (simp add: le_floor_iff)
  with round_even_bounds [of y] show ?thesis by linarith
qed

lemma round_even_le: "y \<le> of_int j \<Longrightarrow> round_even y \<le> j"
proof (cases "y = of_int j")
  case True then show ?thesis by (simp add: round_even_of_int)
next
  case False
  assume "y \<le> of_int j"
  with False have "y < of_int j" by simp
  then have "\<lfloor>y\<rfloor> < j" by (simp add: floor_less_iff)
  with round_even_bounds [of y] show ?thesis by linarith
qed

lemma find_exp_cases: "find_exp k a = - 1022 \<or> 2 powi find_exp k a \<le> a"
  by (induction k) auto

lemma find_exp_eq:
  assumes "- 1022 \<le> e" "2 powi e \<le> a" "a < 2 powi (e + 1)"
  shows "e \<le> int k - 1022 \<Longrightarrow> find_exp k a = e"
proof (induction k)
  case 0
  with assms(1) show ?case by simp
next
  case (Suc k)
  show ?case
  proof (cases "int (Suc k) - 1022 = e")
    case True
    with assms(2) show ?thesis by simp
  next
    case False
    with Suc.prems have lt: "e + 1 \<le> int (Suc k) - 1022" by simp
    have "(2::real) powi (e + 1) \<le> 2 powi (int (Suc k) - 1022)"
      by (rule power_int_increasing [OF lt]) simp
    with assms(3) have "\<not> 2 powi (int (Suc k) - 1022) \<le> a" by simp
    moreover from lt have "e \<le> int k - 1022" by simp
    ultimately show ?thesis using Suc.IH by simp
  qed
qed

lemma fexp_eq:
  assumes "- 1022 \<le> e" "e \<le> 1023" "2 powi e \<le> \<bar>x\<bar>" "\<bar>x\<bar> < 2 powi (e + 1)"
  shows "fexp x = e - 52"
  using find_exp_eq [OF assms(1,3,4), of 2045] assms(2) by (simp add: fexp_def)

lemma fexp_le:
  assumes "\<bar>x\<bar> < 2 powi (53 + j)" "- 1074 \<le> j"
  shows "fexp x \<le> j"
proof -
  from find_exp_cases [of 2045 "\<bar>x\<bar>"]
  show ?thesis
  proof
    assume "find_exp 2045 \<bar>x\<bar> = - 1022"
    with assms(2) show ?thesis by (simp add: fexp_def)
  next
    assume "2 powi find_exp 2045 \<bar>x\<bar> \<le> \<bar>x\<bar>"
    with assms(1) have lt: "(2::real) powi find_exp 2045 \<bar>x\<bar> < 2 powi (53 + j)" by simp
    have "find_exp 2045 \<bar>x\<bar> < 53 + j"
    proof (rule ccontr)
      assume "\<not> find_exp 2045 \<bar>x\<bar> < 53 + j"
      then have le: "53 + j \<le> find_exp 2045 \<bar>x\<bar>" by simp
      have "(2::real) powi (53 + j) \<le> 2 powi find_exp 2045 \<bar>x\<bar>"
        by (rule power_int_increasing [OF le]) simp
      with lt show False by simp
    qed
    then show ?thesis by (simp add: fexp_def)
  qed
qed

lemma powi_split:
  assumes "i \<le> j"
  shows "(2::real) powi j = of_int (2 ^ nat (j - i)) * 2 powi i"
proof -
  have "(2::real) powi j = 2 powi (j - i) * 2 powi i"
    by (simp add: power_int_add [symmetric])
  moreover have "(2::real) powi (j - i) = 2 ^ nat (j - i)"
    using assms by (simp add: power_int_nonneg_exp)
  ultimately show ?thesis by simp
qed

lemma dyadic_scaled:
  assumes "fexp x \<le> j"
  shows "of_int m * (2::real) powi j = of_int (m * 2 ^ nat (j - fexp x)) * 2 powi fexp x"
  by (simp add: powi_split [OF assms])

text \<open>Rounding does not cross a multiple of a power of two that is itself a float.\<close>

lemma rnd64_ge_dyadic:
  assumes "fexp x \<le> j" "of_int m * 2 powi j \<le> x"
  shows "of_int m * 2 powi j \<le> rnd64 x"
proof -
  have pos: "(0::real) < 2 powi fexp x" by simp
  from assms(2) have "of_int (m * 2 ^ nat (j - fexp x)) * 2 powi fexp x \<le> x"
    by (simp only: dyadic_scaled [OF assms(1)])
  then have "of_int (m * 2 ^ nat (j - fexp x)) \<le> x / 2 powi fexp x"
    using pos by (simp only: pos_le_divide_eq)
  then have "m * 2 ^ nat (j - fexp x) \<le> round_even (x / 2 powi fexp x)"
    by (rule round_even_ge)
  then have "of_int (m * 2 ^ nat (j - fexp x)) * 2 powi fexp x \<le> rnd64 x"
    unfolding rnd64_def using pos by (simp only: mult_le_cancel_right_pos of_int_le_iff)
  then show ?thesis by (simp only: dyadic_scaled [OF assms(1)])
qed

lemma rnd64_le_dyadic:
  assumes "fexp x \<le> j" "x \<le> of_int m * 2 powi j"
  shows "rnd64 x \<le> of_int m * 2 powi j"
proof -
  have pos: "(0::real) < 2 powi fexp x" by simp
  from assms(2) have "x \<le> of_int (m * 2 ^ nat (j - fexp x)) * 2 powi fexp x"
    by (simp only: dyadic_scaled [OF assms(1)])
  then have "x / 2 powi fexp x \<le> of_int (m * 2 ^ nat (j - fexp x))"
    using pos by (simp only: pos_divide_le_eq)
  then have "round_even (x / 2 powi fexp x) \<le> m * 2 ^ nat (j - fexp x)"
    by (rule round_even_le)
  then have "rnd64 x \<le> of_int (m * 2 ^ nat (j - fexp x)) * 2 powi fexp x"
    unfolding rnd64_def using pos by (simp only: mult_le_cancel_right_pos of_int_le_iff)
  then show ?thesis by (simp only: dyadic_scaled [OF assms(1)])
qed

text \<open>A value with at most 53 significant bits is a float: rounding leaves it as it is.\<close>

lemma rnd64_dyadic:
  assumes "\<bar>m\<bar> < 2 ^ 53" "- 1074 \<le> j"
  shows "rnd64 (of_int m * 2 powi j) = of_int m * 2 powi j"
proof -
  have "\<bar>of_int m * (2::real) powi j\<bar> = of_int \<bar>m\<bar> * 2 powi j"
    by (simp add: abs_mult)
  also have "\<dots> < of_int (2 ^ 53) * 2 powi j"
    using assms(1)
    by (simp only: mult_less_cancel_right_pos zero_less_power_int zero_less_numeral
          of_int_less_iff)
  also have "\<dots> = 2 powi (53 + j)"
    by (simp add: power_int_add)
  finally have "fexp (of_int m * 2 powi j) \<le> j" using assms(2) by (rule fexp_le)
  from rnd64_ge_dyadic [OF this, of m] rnd64_le_dyadic [OF this, of m]
  show ?thesis by simp
qed

lemma rnd64_of_int:
  assumes "\<bar>m\<bar> < 2 ^ 53"
  shows "rnd64 (of_int m) = of_int m"
  using rnd64_dyadic [OF assms, of 0] by simp

lemma rnd64_zero: "rnd64 0 = 0"
  using rnd64_of_int [of 0] by simp

lemma rnd64_one: "rnd64 1 = 1"
  using rnd64_of_int [of 1] by simp

lemma rnd64_numeral: "(numeral n :: int) < 2 ^ 53 \<Longrightarrow> rnd64 (numeral n) = numeral n"
  using rnd64_of_int [of "numeral n"] by simp

lemma rnd64_neg_numeral:
  "(numeral n :: int) < 2 ^ 53 \<Longrightarrow> rnd64 (- numeral n) = - numeral n"
  using rnd64_of_int [of "- numeral n"] by simp

lemma rnd64_nonneg: "0 \<le> x \<Longrightarrow> 0 \<le> rnd64 x"
  using rnd64_ge_dyadic [of x "fexp x" 0] by simp

lemma rnd64_nonpos: "x \<le> 0 \<Longrightarrow> rnd64 x \<le> 0"
  using rnd64_le_dyadic [of x "fexp x" 0] by simp

lemma rnd64_int_bounds:
  assumes "\<bar>x\<bar> < 2 ^ 53"
  shows "of_int \<lfloor>x\<rfloor> \<le> rnd64 x \<and> rnd64 x \<le> of_int \<lceil>x\<rceil>"
proof -
  from assms have "\<bar>x\<bar> < 2 powi (53 + 0)" by simp
  then have f: "fexp x \<le> 0" by (rule fexp_le) simp
  have "of_int \<lfloor>x\<rfloor> * 2 powi 0 \<le> rnd64 x"
    by (rule rnd64_ge_dyadic [OF f]) simp
  moreover have "rnd64 x \<le> of_int \<lceil>x\<rceil> * 2 powi 0"
    by (rule rnd64_le_dyadic [OF f]) simp
  ultimately show ?thesis by simp
qed

text \<open>The rounding of a value whose binary exponent is known.\<close>

lemma rnd64_eval:
  assumes "- 1022 \<le> e" "e \<le> 1023" "2 powi e \<le> \<bar>x\<bar>" "\<bar>x\<bar> < 2 powi (e + 1)"
  shows "rnd64 x = of_int (round_even (x / 2 powi (e - 52))) * 2 powi (e - 52)"
  by (simp add: rnd64_def fexp_eq [OF assms])

text \<open>
  The cast of a rounded value of magnitude below \<open>2 ^ 53\<close> is the floor or the ceiling of
  the exact value.
\<close>

lemma py_int_rnd64:
  assumes "\<bar>x\<bar> < 2 ^ 53"
  shows "py_int (rnd64 x) = \<lfloor>x\<rfloor> \<or> py_int (rnd64 x) = \<lceil>x\<rceil>"
proof -
  from rnd64_int_bounds [OF assms]
  have lo: "of_int \<lfloor>x\<rfloor> \<le> rnd64 x" and hi: "rnd64 x \<le> of_int \<lceil>x\<rceil>" by simp_all
  have fl: "\<lfloor>rnd64 x\<rfloor> = \<lfloor>x\<rfloor> \<or> \<lfloor>rnd64 x\<rfloor> = \<lceil>x\<rceil>"
  proof (cases "rnd64 x = of_int \<lceil>x\<rceil>")
    case True then show ?thesis by simp
  next
    case False
    with hi have "rnd64 x < of_int \<lceil>x\<rceil>" by simp
    moreover have "\<lceil>x\<rceil> \<le> \<lfloor>x\<rfloor> + 1" by linarith
    ultimately have "rnd64 x < of_int (\<lfloor>x\<rfloor> + 1)"
      by (metis less_le_trans of_int_le_iff)
    with lo have "\<lfloor>rnd64 x\<rfloor> = \<lfloor>x\<rfloor>" by (simp add: floor_unique)
    then show ?thesis by simp
  qed
  have ce: "\<lceil>rnd64 x\<rceil> = \<lfloor>x\<rfloor> \<or> \<lceil>rnd64 x\<rceil> = \<lceil>x\<rceil>"
  proof (cases "rnd64 x = of_int \<lfloor>x\<rfloor>")
    case True then show ?thesis by simp
  next
    case False
    with lo have "of_int \<lfloor>x\<rfloor> < rnd64 x" by simp
    moreover have "\<lceil>x\<rceil> - 1 \<le> \<lfloor>x\<rfloor>" by linarith
    ultimately have "of_int (\<lceil>x\<rceil> - 1) < rnd64 x"
      by (metis le_less_trans of_int_le_iff)
    with hi have "\<lceil>rnd64 x\<rceil> = \<lceil>x\<rceil>" by (simp add: ceiling_unique)
    then show ?thesis by simp
  qed
  from fl ce show ?thesis by (auto simp: py_int_def)
qed

section \<open>Auxiliary facts\<close>

lemma np_where_eq_Cons:
  "np_where_eq (t # ts) r = (if t = r then [0] else []) @ map Suc (np_where_eq ts r)"
proof -
  have "[0..<length (t # ts)] = 0 # map Suc [0..<length ts]"
    by (simp add: upt_conv_Cons map_Suc_upt del: upt_Suc)
  then show ?thesis
    unfolding np_where_eq_def by (simp add: filter_map comp_def del: upt_Suc)
qed

lemma index0_where_found: "r \<in> set ts \<Longrightarrow> index0 (np_where_eq ts r) = Inr (first_idx ts r)"
proof (induction ts)
  case Nil then show ?case by simp
next
  case (Cons t ts)
  show ?case
  proof (cases "t = r")
    case True then show ?thesis by (simp add: np_where_eq_Cons index0_def)
  next
    case False
    with Cons have "index0 (np_where_eq ts r) = Inr (first_idx ts r)" by simp
    with False show ?thesis
      by (simp add: np_where_eq_Cons index0_def split: list.splits)
  qed
qed

lemma index0_where_missing: "r \<notin> set ts \<Longrightarrow> index0 (np_where_eq ts r) = Inl IndexError"
proof -
  assume "r \<notin> set ts"
  then have "np_where_eq ts r = []"
    unfolding np_where_eq_def by (auto simp: filter_empty_conv)
  then show ?thesis by (simp add: index0_def)
qed

lemma first_idx_props:
  "r \<in> set ts \<Longrightarrow> first_idx ts r < length ts \<and> ts ! first_idx ts r = r \<and> (\<forall>j < first_idx ts r. ts ! j \<noteq> r)"
proof (induction ts)
  case Nil then show ?case by simp
next
  case (Cons t ts)
  show ?case
  proof (cases "t = r")
    case True then show ?thesis by simp
  next
    case False
    with Cons have IH: "first_idx ts r < length ts \<and> ts ! first_idx ts r = r \<and> (\<forall>j < first_idx ts r. ts ! j \<noteq> r)" by simp
    with False show ?thesis by (auto simp: less_Suc_eq_0_disj)
  qed
qed

lemma first_idx_unique:
  "i < length ts \<Longrightarrow> ts ! i = r \<Longrightarrow> \<forall>j < i. ts ! j \<noteq> r \<Longrightarrow> first_idx ts r = i"
proof -
  assume i: "i < length ts" and eq: "ts ! i = r" and least: "\<forall>j < i. ts ! j \<noteq> r"
  from i eq have "r \<in> set ts" by auto
  from first_idx_props [OF this]
  have f: "ts ! first_idx ts r = r" and fl: "\<forall>j < first_idx ts r. ts ! j \<noteq> r" by auto
  from least f have "\<not> first_idx ts r < i" by auto
  moreover from fl eq have "\<not> i < first_idx ts r" by auto
  ultimately show ?thesis by simp
qed

lemma peh_loop_idx_eq:
  "peh_loop_idx d mm refs trials = trials @ map (window_at d mm) refs"
  by (induction refs arbitrary: trials) (simp_all add: window_at_def Let_def)

lemma peh_loop_ts_found:
  "\<forall>r \<in> set refs. r \<in> set (timestamps d) \<Longrightarrow>
   peh_loop_ts d mm refs trials =
     Inr (trials @ map (\<lambda>r. window_at d mm (real (first_idx (timestamps d) r))) refs)"
  by (induction refs arbitrary: trials)
     (simp_all add: window_at_def Let_def index0_where_found)

lemma peh_loop_ts_missing:
  "\<exists>r \<in> set refs. r \<notin> set (timestamps d) \<Longrightarrow> peh_loop_ts d mm refs trials = Inl IndexError"
proof (induction refs arbitrary: trials)
  case Nil then show ?case by simp
next
  case (Cons r refs)
  show ?case
  proof (cases "r \<in> set (timestamps d)")
    case False
    then show ?thesis by (simp add: index0_where_missing)
  next
    case True
    with Cons.prems have "\<exists>r \<in> set refs. r \<notin> set (timestamps d)" by auto
    from Cons.IH [OF this] True show ?thesis
      by (simp add: index0_where_found Let_def)
  qed
qed

lemma fold_max_ge:
  "a \<le> fold (\<lambda>r m. max (length r) m) rows a \<and>
   (\<forall>r \<in> set rows. length r \<le> fold (\<lambda>r m. max (length r) m) rows a)"
proof (induction rows arbitrary: a)
  case Nil then show ?case by simp
next
  case (Cons r rows)
  from Cons [of "max (length r) a"] show ?case by auto
qed

lemma fold_max_attained:
  "fold (\<lambda>r m. max (length r) m) rows a = a \<or>
   (\<exists>r \<in> set rows. length r = fold (\<lambda>r m. max (length r) m) rows a)"
proof (induction rows arbitrary: a)
  case Nil then show ?case by simp
next
  case (Cons r rows)
  from Cons [of "max (length r) a"] show ?case by (auto simp: max_def split: if_splits)
qed

lemma max_len_ge: "r \<in> set rows \<Longrightarrow> length r \<le> max_len rows"
  using fold_max_ge [of 0 rows] by (simp add: max_len_def)

lemma max_len_attained: "max_len rows = 0 \<or> (\<exists>r \<in> set rows. length r = max_len rows)"
  using fold_max_attained [of rows 0] by (simp add: max_len_def)

lemma length_DataFrame: "length (DataFrame rows) = length rows"
  by (simp add: DataFrame_def)

lemma nth_DataFrame:
  "k < length rows \<Longrightarrow>
   DataFrame rows ! k = rows ! k @ replicate (max_len rows - length (rows ! k)) NaN"
  by (simp add: DataFrame_def)

lemma length_nth_DataFrame: "k < length rows \<Longrightarrow> length (DataFrame rows ! k) = max_len rows"
  using max_len_ge [of "rows ! k" rows] by (simp add: nth_DataFrame)

lemma DataFrame_single: "DataFrame [r] = [r]"
  by (simp add: DataFrame_def max_len_def)

lemma py_slice_inside:
  assumes "0 \<le> s" "s \<le> e" "e \<le> int (length xs)"
  shows "py_slice xs s e = take (nat (e - s)) (drop (nat s) xs)"
  using assms by (simp add: py_slice_def Let_def slice_bound_def nat_diff_distrib)

lemma py_slice_neg_start_empty:
  assumes "s < 0" "0 \<le> e" "e - s \<le> int (length xs)"
  shows "py_slice xs s e = []"
  using assms by (auto simp: py_slice_def Let_def slice_bound_def)

lemma ts_grid_first:
  assumes "ts = map (\<lambda>k. real k / c) [0..<n]" "0 < c" "i < n"
  shows "index0 (np_where_eq ts (real i / c)) = Inr i"
proof -
  have "real i / c \<in> set ts" using assms by auto
  moreover have "first_idx ts (real i / c) = i"
  proof (rule first_idx_unique)
    show "i < length ts" using assms by simp
    show "ts ! i = real i / c" using assms by simp
    show "\<forall>j<i. ts ! j \<noteq> real i / c" using assms by auto
  qed
  ultimately show ?thesis by (simp add: index0_where_found)
qed

lemma cont_var_peh_idx_rows:
  "cont_var_peh d refs mm nm True = Inr (DataFrame (map (window_at d mm) refs))"
  by (simp add: cont_var_peh_def peh_loop_idx_eq)

lemma cont_var_peh_ts_rows:
  assumes "cont_var_peh d refs mm nm False = Inr M"
  shows "(\<forall>r \<in> set refs. r \<in> set (timestamps d)) \<and>
         M = DataFrame (map (\<lambda>r. window_at d mm (real (first_idx (timestamps d) r))) refs)"
proof (cases "\<forall>r \<in> set refs. r \<in> set (timestamps d)")
  case True
  with assms show ?thesis by (auto simp: cont_var_peh_def peh_loop_ts_found)
next
  case False
  then have "\<exists>r \<in> set refs. r \<notin> set (timestamps d)" by simp
  from peh_loop_ts_missing [OF this] assms show ?thesis by (simp add: cont_var_peh_def)
qed

lemma DataFrame_row_split:
  assumes "k < length rows"
  shows "DataFrame rows ! k =
           rows ! k @ replicate (length (DataFrame rows ! k) - length (rows ! k)) NaN"
  using assms by (simp add: nth_DataFrame)

lemma ceiling_eq_floor_Ints: "x \<in> \<int> \<Longrightarrow> \<lceil>x\<rceil> = \<lfloor>x\<rfloor>"
  by (auto elim: Ints_cases)

text \<open>The row of the matrix at position k, in either mode, once the reference is resolved.\<close>

lemma peh_row:
  assumes res: "cont_var_peh d refs mm nm idx = Inr M" and k: "k < length refs"
    and i: "if idx then refs ! k = c
            else (\<exists>i < length (timestamps d). c = real i \<and> timestamps d ! i = refs ! k \<and>
                  (\<forall>j<i. timestamps d ! j \<noteq> refs ! k))"
  shows "M ! k = window_at d mm c @ replicate (length (M ! k) - length (window_at d mm c)) NaN"
proof (cases idx)
  case True
  with res have M: "M = DataFrame (map (window_at d mm) refs)"
    by (simp add: cont_var_peh_idx_rows)
  from True i have "refs ! k = c" by simp
  with k show ?thesis unfolding M
    using DataFrame_row_split [of k "map (window_at d mm) refs"] by simp
next
  case False
  with res have res': "cont_var_peh d refs mm nm False = Inr M" by simp
  from cont_var_peh_ts_rows [OF res']
  have M: "M = DataFrame (map (\<lambda>r. window_at d mm (real (first_idx (timestamps d) r))) refs)"
    by simp
  from False i obtain i' where "i' < length (timestamps d)" "c = real i'"
    "timestamps d ! i' = refs ! k" "\<forall>j<i'. timestamps d ! j \<noteq> refs ! k" by auto
  then have "first_idx (timestamps d) (refs ! k) = i'" "c = real i'"
    by (simp_all add: first_idx_unique)
  with k show ?thesis unfolding M
    using DataFrame_row_split [of k "map (\<lambda>r. window_at d mm (real (first_idx (timestamps d) r))) refs"]
    by simp
qed

lemma rec100_first:
  assumes "i < 100"
  shows "i < length (timestamps rec100) \<and> timestamps rec100 ! i = real i / 10 \<and>
         (\<forall>j<i. timestamps rec100 ! j \<noteq> real i / 10)"
  using assms by (auto simp: rec100_def)

lemma rec100_single:
  assumes "i < 100"
  shows "cont_var_peh rec100 [real i / 10] mm nm False = Inr [window_at rec100 mm (real i)]"
proof -
  have "timestamps rec100 = map (\<lambda>k. real k / 10) [0..<100]" by (simp add: rec100_def)
  from ts_grid_first [OF this _ assms]
  have "index0 (np_where_eq (timestamps rec100) (real i / 10)) = Inr i" by simp
  then show ?thesis
    by (simp add: cont_var_peh_def Let_def window_at_def DataFrame_single)
qed

lemma rec100_window:
  assumes "0 \<le> s" "s \<le> e" "e \<le> 100"
  shows "py_slice (signal rec100) s e = map (\<lambda>k. Fin (real k)) [nat s..<nat e]"
proof -
  have "py_slice (signal rec100) s e = take (nat (e - s)) (drop (nat s) (signal rec100))"
    using assms by (simp add: py_slice_inside rec100_def)
  also have "\<dots> = map (\<lambda>k. Fin (real k)) (take (nat (e - s)) (drop (nat s) [0..<100]))"
    by (simp add: rec100_def take_map drop_map)
  also have "take (nat (e - s)) (drop (nat s) [0..<100]) = [nat s..<nat e]"
    using assms by (simp add: nat_diff_distrib)
  finally show ?thesis .
qed

section \<open>The round trip of the specification's example\<close>

text \<open>
  C2.  A recording of 100 samples at sampling rate 10, its timestamps 0.0, 0.1, ..., 9.9:
  the extraction in timestamp mode with the single reference point 5.0 and the window
  (1.0, 1.0) returns one row, of length 20, which is \<open>signal[40:60]\<close>.
\<close>

theorem peh_round_trip:
  assumes "length (signal d) = 100"
      and "timestamps d = map (\<lambda>k. real k / 10) [0..<100]"
      and "sr d = 10"
  shows "cont_var_peh d [5] (1, 1) nm False = Inr [take 20 (drop 40 (signal d))]
       \<and> length (take 20 (drop 40 (signal d))) = 20
       \<and> take 20 (drop 40 (signal d)) = py_slice (signal d) 40 60"
proof -
  have "index0 (np_where_eq (timestamps d) (real 50 / 10)) = Inr 50"
    by (rule ts_grid_first [OF assms(2)]) simp_all
  then have idx: "index0 (np_where_eq (timestamps d) 5) = Inr 50" by simp
  have s: "py_int (rnd64 (real 50 - rnd64 (\<bar>1\<bar> * 10))) = 40"
    and e: "py_int (rnd64 (real 50 + rnd64 (\<bar>1\<bar> * 10))) = 60"
    by (simp_all add: py_int_def rnd64_numeral)
  have sl: "py_slice (signal d) 40 60 = take 20 (drop 40 (signal d))"
    using assms(1) by (simp add: py_slice_inside)
  have "peh_loop_ts d (1, 1) [5] [] = Inr [py_slice (signal d) 40 60]"
    using s e by (simp add: idx assms(3) Let_def)
  then show ?thesis
    using assms(1) by (simp add: cont_var_peh_def DataFrame_single sl)
qed

theorem peh_round_trip_witness:
  "cont_var_peh rec100 [5] (1, 1) None False = Inr [take 20 (drop 40 (signal rec100))]
   \<and> length (take 20 (drop 40 (signal rec100))) = 20
   \<and> take 20 (drop 40 (signal rec100)) = py_slice (signal rec100) 40 60"
proof -
  have a: "length (signal rec100) = 100" by (simp add: rec100_def)
  have b: "timestamps rec100 = map (\<lambda>k. real k / 10) [0..<100]" by (simp add: rec100_def)
  have c: "sr rec100 = 10" by (simp add: rec100_def)
  show ?thesis by (rule peh_round_trip [OF a b c])
qed

section \<open>The bounds of a window\<close>

lemma rnd64_half: "\<bar>m\<bar> < 2 ^ 53 \<Longrightarrow> rnd64 (of_int m / 2) = of_int m / 2"
  using rnd64_dyadic [of m "- 1"] by (simp add: power_int_minus_divide)

lemma rnd64_small:
  assumes "\<bar>x\<bar> < 2 ^ 52"
  shows "\<bar>rnd64 x\<bar> \<le> 2 ^ 52"
proof -
  from assms have "\<bar>x\<bar> < 2 powi (53 + 0)" by simp
  then have f: "fexp x \<le> 0" by (rule fexp_le) simp
  have "rnd64 x \<le> of_int (2 ^ 52) * 2 powi 0"
    by (rule rnd64_le_dyadic [OF f]) (use assms in simp)
  moreover have "of_int (- (2 ^ 52)) * 2 powi 0 \<le> rnd64 x"
    by (rule rnd64_ge_dyadic [OF f]) (use assms in simp)
  ultimately show ?thesis by simp
qed

lemma floor_nat_add: "\<lfloor>real i + x\<rfloor> = int i + \<lfloor>x\<rfloor>"
proof -
  have "real i + x = of_int (int i) + x" by simp
  then show ?thesis by (simp only: int_add_floor)
qed

lemma ceiling_nat_add: "\<lceil>real i + x\<rceil> = int i + \<lceil>x\<rceil>"
proof -
  have "real i + x = x + of_int (int i)" by simp
  then show ?thesis by (simp only: ceiling_add_of_int)
qed

lemma floor_nat_diff: "\<lfloor>real i - x\<rfloor> = int i - \<lceil>x\<rceil>"
  using floor_nat_add [of i "- x"] by (simp add: floor_minus)

lemma ceiling_nat_diff: "\<lceil>real i - x\<rceil> = int i - \<lfloor>x\<rfloor>"
  using ceiling_nat_add [of i "- x"] by (simp add: ceiling_minus)

lemma rnd64_Ints:
  assumes "\<bar>x\<bar> < 2 ^ 52" "x \<in> \<int>"
  shows "rnd64 x = x"
proof -
  from assms(2) obtain z where z: "x = of_int z" by (auto elim: Ints_cases)
  with assms(1) have "\<bar>z\<bar> < 2 ^ 52" by (simp flip: of_int_abs)
  then have "\<bar>z\<bar> < 2 ^ 53" by simp
  from rnd64_of_int [OF this] z show ?thesis by simp
qed

lemma rec100_quarter: "window_at rec100 (1 / 4, 1) 50 = py_slice (signal rec100) 47 60"
proof -
  have a: "rnd64 (5 / 2) = 5 / 2" "rnd64 (95 / 2) = 95 / 2"
    using rnd64_half [of 5] rnd64_half [of 95] by simp_all
  have "py_int (rnd64 (50 - rnd64 (\<bar>1 / 4\<bar> * 10))) = 47"
    "py_int (rnd64 (50 + rnd64 (\<bar>1\<bar> * 10))) = 60"
    by (simp_all add: py_int_def a rnd64_numeral)
  then show ?thesis by (simp add: window_at_def rec100_def)
qed

text \<open>
  C1, as the specification states it, fails: with the reference 5.0 of the 100-sample
  recording resolved to index 50 and the window (0.25, 1.0), the program casts
  \<open>50 - 2.5 = 47.5\<close> to 47 and extracts \<open>signal[47:60]\<close>, while the claimed start
  \<open>50 - floor(2.5)\<close> is 48.  All the values involved are floats, and no operation rounds.
\<close>

theorem window_start_counterexample:
  "index0 (np_where_eq (timestamps rec100) 5) = Inr 50
   \<and> cont_var_peh rec100 [5] (1 / 4, 1) None False = Inr [py_slice (signal rec100) 47 60]
   \<and> spec_start 50 (1 / 4) (sr rec100) = 48
   \<and> spec_end 50 1 (sr rec100) = 60
   \<and> py_slice (signal rec100) 47 60 \<noteq> py_slice (signal rec100) 48 60"
proof -
  have ts: "timestamps rec100 = map (\<lambda>k. real k / 10) [0..<100]" by (simp add: rec100_def)
  have "index0 (np_where_eq (timestamps rec100) (real 50 / 10)) = Inr 50"
    by (rule ts_grid_first [OF ts]) simp_all
  then have a: "index0 (np_where_eq (timestamps rec100) 5) = Inr 50" by simp
  have "cont_var_peh rec100 [real 50 / 10] (1 / 4, 1) None False
          = Inr [window_at rec100 (1 / 4, 1) (real 50)]"
    by (rule rec100_single) simp
  then have b: "cont_var_peh rec100 [5] (1 / 4, 1) None False
                  = Inr [py_slice (signal rec100) 47 60]"
    by (simp add: rec100_quarter)
  have c: "spec_start 50 (1 / 4) (sr rec100) = 48" "spec_end 50 1 (sr rec100) = 60"
    by (simp_all add: spec_start_def spec_end_def rec100_def)
  have "length (py_slice (signal rec100) 47 60) = 13" "length (py_slice (signal rec100) 48 60) = 12"
    by (simp_all add: rec100_window)
  then have d: "py_slice (signal rec100) 47 60 \<noteq> py_slice (signal rec100) 48 60" by auto
  from a b c d show ?thesis by blast
qed

text \<open>
  C1, amended.  For every extraction call and every reference point resolved to the sample
  index \<open>i\<close>, the extracted row is the slice \<open>signal[start:end]\<close> with
  \<open>start = int(i - |before| * samplingRate)\<close> and \<open>end = int(i + |after| * samplingRate)\<close>,
  evaluated in floating point: the product is rounded, the difference or the sum is rounded,
  and the cast truncates the result toward zero; negative window bounds are taken by
  absolute value.  With \<open>p\<close> and \<open>q\<close> the rounded products for the two sides, \<open>start\<close> is
  \<open>i - ceiling(p)\<close> or \<open>i - floor(p)\<close> and \<open>end\<close> is \<open>i + floor(q)\<close> or \<open>i + ceiling(q)\<close>.
  When \<open>|before| * samplingRate\<close> is a whole number, \<open>start\<close> is the claimed
  \<open>i - floor(|before| * samplingRate)\<close>, and likewise \<open>end\<close> when
  \<open>|after| * samplingRate\<close> is a whole number.  The index and the two products are below
  \<open>2 ^ 52\<close> in magnitude.  In the returned matrix the row is followed by its padding.
\<close>

theorem window_bounds:
  assumes "cont_var_peh d refs mm nm idx = Inr M" and "k < length refs"
    and "if idx then refs ! k = real i
         else i < length (timestamps d) \<and> timestamps d ! i = refs ! k \<and>
              (\<forall>j<i. timestamps d ! j \<noteq> refs ! k)"
    and "real i < 2 ^ 52"
    and "\<bar>\<bar>fst mm\<bar> * sr d\<bar> < 2 ^ 52" and "\<bar>\<bar>snd mm\<bar> * sr d\<bar> < 2 ^ 52"
  shows "let p = rnd64 (\<bar>fst mm\<bar> * sr d);
             q = rnd64 (\<bar>snd mm\<bar> * sr d);
             start = py_int (rnd64 (real i - p));
             end = py_int (rnd64 (real i + q));
             row = py_slice (signal d) start end
         in M ! k = row @ replicate (length (M ! k) - length row) NaN
          \<and> (start = int i - \<lceil>p\<rceil> \<or> start = int i - \<lfloor>p\<rfloor>)
          \<and> (end = int i + \<lfloor>q\<rfloor> \<or> end = int i + \<lceil>q\<rceil>)
          \<and> (\<bar>fst mm\<bar> * sr d \<in> \<int> \<longrightarrow> start = int i - \<lfloor>\<bar>fst mm\<bar> * sr d\<rfloor>)
          \<and> (\<bar>snd mm\<bar> * sr d \<in> \<int> \<longrightarrow> end = int i + \<lfloor>\<bar>snd mm\<bar> * sr d\<rfloor>)"
proof -
  define p where "p = rnd64 (\<bar>fst mm\<bar> * sr d)"
  define q where "q = rnd64 (\<bar>snd mm\<bar> * sr d)"
  have res: "if idx then refs ! k = real i
            else (\<exists>i' < length (timestamps d). real i = real i' \<and> timestamps d ! i' = refs ! k \<and>
                  (\<forall>j<i'. timestamps d ! j \<noteq> refs ! k))"
    using assms(3) by (cases idx) auto
  have row: "M ! k = window_at d mm (real i) @
               replicate (length (M ! k) - length (window_at d mm (real i))) NaN"
    by (rule peh_row [OF assms(1,2) res])
  have w: "window_at d mm (real i) =
             py_slice (signal d) (py_int (rnd64 (real i - p))) (py_int (rnd64 (real i + q)))"
    by (simp add: window_at_def p_def q_def)
  have pb: "\<bar>p\<bar> \<le> 2 ^ 52" unfolding p_def by (rule rnd64_small [OF assms(5)])
  have qb: "\<bar>q\<bar> \<le> 2 ^ 52" unfolding q_def by (rule rnd64_small [OF assms(6)])
  have ib: "0 \<le> real i" by simp
  have sb: "\<bar>real i - p\<bar> < 2 ^ 53" using pb ib assms(4) by (simp add: abs_if split: if_splits)
  have eb: "\<bar>real i + q\<bar> < 2 ^ 53" using qb ib assms(4) by (simp add: abs_if split: if_splits)
  have s: "py_int (rnd64 (real i - p)) = int i - \<lceil>p\<rceil> \<or>
           py_int (rnd64 (real i - p)) = int i - \<lfloor>p\<rfloor>"
    using py_int_rnd64 [OF sb] by (simp add: floor_nat_diff ceiling_nat_diff)
  have e: "py_int (rnd64 (real i + q)) = int i + \<lfloor>q\<rfloor> \<or>
           py_int (rnd64 (real i + q)) = int i + \<lceil>q\<rceil>"
    using py_int_rnd64 [OF eb] by (simp add: floor_nat_add ceiling_nat_add)
  have sz: "\<bar>fst mm\<bar> * sr d \<in> \<int> \<longrightarrow>
              py_int (rnd64 (real i - p)) = int i - \<lfloor>\<bar>fst mm\<bar> * sr d\<rfloor>"
  proof
    assume z: "\<bar>fst mm\<bar> * sr d \<in> \<int>"
    from rnd64_Ints [OF assms(5) z] have pe: "p = \<bar>fst mm\<bar> * sr d" by (simp add: p_def)
    with z have "\<lceil>p\<rceil> = \<lfloor>p\<rfloor>" by (auto elim: Ints_cases)
    with s pe show "py_int (rnd64 (real i - p)) = int i - \<lfloor>\<bar>fst mm\<bar> * sr d\<rfloor>" by auto
  qed
  have ez: "\<bar>snd mm\<bar> * sr d \<in> \<int> \<longrightarrow>
              py_int (rnd64 (real i + q)) = int i + \<lfloor>\<bar>snd mm\<bar> * sr d\<rfloor>"
  proof
    assume z: "\<bar>snd mm\<bar> * sr d \<in> \<int>"
    from rnd64_Ints [OF assms(6) z] have qe: "q = \<bar>snd mm\<bar> * sr d" by (simp add: q_def)
    with z have "\<lceil>q\<rceil> = \<lfloor>q\<rfloor>" by (auto elim: Ints_cases)
    with e qe show "py_int (rnd64 (real i + q)) = int i + \<lfloor>\<bar>snd mm\<bar> * sr d\<rfloor>" by auto
  qed
  from row w s e sz ez show ?thesis
    unfolding Let_def p_def [symmetric] q_def [symmetric] by simp
qed

theorem window_bounds_witness:
  "cont_var_peh rec100 [5] (1 / 4, 1) None False = Inr [py_slice (signal rec100) 47 60]
   \<and> (0::nat) < length [5::real]
   \<and> 50 < length (timestamps rec100) \<and> timestamps rec100 ! 50 = [5] ! 0
   \<and> (py_int (rnd64 (real 50 - rnd64 (\<bar>fst (1 / 4, 1 :: real)\<bar> * sr rec100))) = 47
        \<or> py_int (rnd64 (real 50 - rnd64 (\<bar>fst (1 / 4, 1 :: real)\<bar> * sr rec100))) = 48)
   \<and> py_int (rnd64 (real 50 + rnd64 (\<bar>snd (1 / 4, 1 :: real)\<bar> * sr rec100))) = 60"
proof -
  have "cont_var_peh rec100 [real 50 / 10] (1 / 4, 1) None False
          = Inr [window_at rec100 (1 / 4, 1) (real 50)]"
    by (rule rec100_single) simp
  then have h1: "cont_var_peh rec100 [5] (1 / 4, 1) None False
                  = Inr [py_slice (signal rec100) 47 60]"
    by (simp add: rec100_quarter)
  have h2: "(0::nat) < length [5::real]" by simp
  have "50 < length (timestamps rec100) \<and> timestamps rec100 ! 50 = real 50 / 10 \<and>
        (\<forall>j<50. timestamps rec100 ! j \<noteq> real 50 / 10)"
    by (rule rec100_first) simp
  then have h3: "50 < length (timestamps rec100) \<and> timestamps rec100 ! 50 = [5] ! 0 \<and>
        (\<forall>j<50. timestamps rec100 ! j \<noteq> [5] ! 0)" by simp
  have h3': "if False then [5] ! 0 = real 50
         else 50 < length (timestamps rec100) \<and> timestamps rec100 ! 50 = [5] ! 0 \<and>
              (\<forall>j<50. timestamps rec100 ! j \<noteq> [5] ! 0)"
    using h3 by simp
  have sr: "sr rec100 = 10" by (simp add: rec100_def)
  have h4: "real 50 < 2 ^ 52" by simp
  have h5: "\<bar>\<bar>fst (1 / 4, 1 :: real)\<bar> * sr rec100\<bar> < 2 ^ 52"
    and h6: "\<bar>\<bar>snd (1 / 4, 1 :: real)\<bar> * sr rec100\<bar> < 2 ^ 52"
    by (simp_all add: sr)
  have r: "rnd64 (5 / 2) = 5 / 2" using rnd64_half [of 5] by simp
  from window_bounds [OF h1 h2 h3' h4 h5 h6]
  have "(py_int (rnd64 (real 50 - rnd64 (\<bar>fst (1 / 4, 1 :: real)\<bar> * sr rec100))) = 47
        \<or> py_int (rnd64 (real 50 - rnd64 (\<bar>fst (1 / 4, 1 :: real)\<bar> * sr rec100))) = 48)
      \<and> py_int (rnd64 (real 50 + rnd64 (\<bar>snd (1 / 4, 1 :: real)\<bar> * sr rec100))) = 60"
    unfolding Let_def by (simp add: sr r rnd64_numeral)
  with h1 h2 h3 show ?thesis by blast
qed

lemma window_rounding_examples:
  "py_int (rnd64 (0 + rnd64 (\<bar>5224175567749775 / 18014398509481984\<bar> * 100))) = 28"
  "py_int (rnd64 (1000 + rnd64 (\<bar>5224175567749775 / 18014398509481984\<bar> * 100))) = 1029"
  "py_int (rnd64 (8 - rnd64 (\<bar>1261007895663739 / 18014398509481984\<bar> * 100))) = 0"
proof -
  have q: "rnd64 (130604389193744375 / 4503599627370496) = 8162774324609023 / 281474976710656"
    using rnd64_eval [of 4 "130604389193744375 / 4503599627370496"]
    by (simp add: round_even_def Let_def power_int_minus_divide)
  have q0: "rnd64 (8162774324609023 / 281474976710656) = 8162774324609023 / 281474976710656"
    using rnd64_dyadic [of 8162774324609023 "- 48"] by (simp add: power_int_minus_divide)
  have q1: "rnd64 (289637751035265023 / 281474976710656) = 1029"
    using rnd64_eval [of 10 "289637751035265023 / 281474976710656"]
    by (simp add: round_even_def Let_def power_int_minus_divide)
  have p: "rnd64 (31525197391593475 / 4503599627370496) = 7881299347898369 / 1125899906842624"
    using rnd64_eval [of 2 "31525197391593475 / 4503599627370496"]
    by (simp add: round_even_def Let_def power_int_minus_divide)
  have p0: "rnd64 (1125899906842623 / 1125899906842624) = 1125899906842623 / 1125899906842624"
    using rnd64_dyadic [of 1125899906842623 "- 50"] by (simp add: power_int_minus_divide)
  show "py_int (rnd64 (0 + rnd64 (\<bar>5224175567749775 / 18014398509481984\<bar> * 100))) = 28"
    by (simp add: q q0 py_int_def)
  show "py_int (rnd64 (1000 + rnd64 (\<bar>5224175567749775 / 18014398509481984\<bar> * 100))) = 1029"
    by (simp add: q q1 py_int_def)
  show "py_int (rnd64 (8 - rnd64 (\<bar>1261007895663739 / 18014398509481984\<bar> * 100))) = 0"
    by (simp add: p p0 py_int_def)
qed

section \<open>A window that starts before the signal\<close>

lemma rec100_near_start: "window_at rec100 (1, 1) 2 = py_slice (signal rec100) (- 8) 12"
proof -
  have "py_int (rnd64 (2 - rnd64 (\<bar>1\<bar> * 10))) = - 8"
    "py_int (rnd64 (2 + rnd64 (\<bar>1\<bar> * 10))) = 12"
    by (simp_all add: py_int_def rnd64_numeral rnd64_neg_numeral)
  then show ?thesis by (simp add: window_at_def rec100_def)
qed

lemma rec100_near_start_call:
  "cont_var_peh rec100 [1 / 5] (1, 1) None False = Inr [py_slice (signal rec100) (- 8) 12]"
proof -
  have "cont_var_peh rec100 [real 2 / 10] (1, 1) None False
          = Inr [window_at rec100 (1, 1) (real 2)]"
    by (rule rec100_single) simp
  then show ?thesis by (simp add: rec100_near_start)
qed

lemma rec100_wrapped_empty: "py_slice (signal rec100) (- 8) 12 = []"
  by (rule py_slice_neg_start_empty) (simp_all add: rec100_def)

lemma rec100_far_before: "window_at rec100 (19 / 2, 1) 2 = py_slice (signal rec100) (- 93) 12"
proof -
  have "py_int (rnd64 (2 - rnd64 (\<bar>19 / 2\<bar> * 10))) = - 93"
    "py_int (rnd64 (2 + rnd64 (\<bar>1\<bar> * 10))) = 12"
    by (simp_all add: py_int_def rnd64_numeral rnd64_neg_numeral)
  then show ?thesis by (simp add: window_at_def rec100_def)
qed

lemma rec100_wrapped_tail:
  "py_slice (signal rec100) (- 93) 12 = [Fin 7, Fin 8, Fin 9, Fin 10, Fin 11]"
proof -
  have "py_slice (signal rec100) (- 93) 12 = py_slice (signal rec100) 7 12"
    by (simp add: py_slice_def slice_bound_def rec100_def)
  also have "\<dots> = map (\<lambda>k. Fin (real k)) [nat 7..<nat 12]"
    by (rule rec100_window) simp_all
  finally show ?thesis by (simp add: upt_rec)
qed

text \<open>
  C3.  The specification has a window that starts before the signal truncated at the left
  edge, with no negative index wrapping around to the end of the signal.  The program
  hands the negative start to the slice, which counts it from the end.  For the reference
  0.2 of the 100-sample recording (index 2) and the window (1.0, 1.0) the start is \<open>-8\<close>,
  position 92, the end is 12, and the returned row is empty, where the left-truncated row
  \<open>signal[0:12]\<close> has 12 samples.  With the window (9.5, 1.0) the start is \<open>-93\<close>,
  position 7, and the row is the samples 7 to 11, none of them before the event.
\<close>

theorem left_edge_wraps:
  "index0 (np_where_eq (timestamps rec100) (1 / 5)) = Inr 2
   \<and> py_int (rnd64 (2 - rnd64 (\<bar>1\<bar> * sr rec100))) = - 8
   \<and> py_int (rnd64 (2 + rnd64 (\<bar>1\<bar> * sr rec100))) = 12
   \<and> cont_var_peh rec100 [1 / 5] (1, 1) None False = Inr [[]]
   \<and> truncated_slice (signal rec100) (- 8) 12 = take 12 (signal rec100)
   \<and> length (take 12 (signal rec100)) = 12
   \<and> slice_bound (- 8) (length (signal rec100)) = 92
   \<and> cont_var_peh rec100 [1 / 5] (19 / 2, 1) None False
        = Inr [[Fin 7, Fin 8, Fin 9, Fin 10, Fin 11]]"
proof -
  have ts: "timestamps rec100 = map (\<lambda>k. real k / 10) [0..<100]" by (simp add: rec100_def)
  have "index0 (np_where_eq (timestamps rec100) (real 2 / 10)) = Inr 2"
    by (rule ts_grid_first [OF ts]) simp_all
  then have a: "index0 (np_where_eq (timestamps rec100) (1 / 5)) = Inr 2" by simp
  have b: "py_int (rnd64 (2 - rnd64 (\<bar>1\<bar> * sr rec100))) = - 8"
    "py_int (rnd64 (2 + rnd64 (\<bar>1\<bar> * sr rec100))) = 12"
    by (simp_all add: py_int_def rec100_def rnd64_numeral rnd64_neg_numeral)
  have c: "cont_var_peh rec100 [1 / 5] (1, 1) None False = Inr [[]]"
    by (simp add: rec100_near_start_call rec100_wrapped_empty)
  have d: "truncated_slice (signal rec100) (- 8) 12 = take 12 (signal rec100)"
    by (simp add: truncated_slice_def rec100_def)
  have e: "length (take 12 (signal rec100)) = 12" by (simp add: rec100_def)
  have f: "slice_bound (- 8) (length (signal rec100)) = 92"
    by (simp add: slice_bound_def rec100_def)
  have "cont_var_peh rec100 [real 2 / 10] (19 / 2, 1) None False
          = Inr [window_at rec100 (19 / 2, 1) (real 2)]"
    by (rule rec100_single) simp
  then have g: "cont_var_peh rec100 [1 / 5] (19 / 2, 1) None False
        = Inr [[Fin 7, Fin 8, Fin 9, Fin 10, Fin 11]]"
    by (simp add: rec100_far_before rec100_wrapped_tail)
  from a b c d e f g show ?thesis by blast
qed

section \<open>Resolving reference timestamps\<close>

lemma rec100_in_timestamps: "i < 100 \<Longrightarrow> real i / 10 \<in> set (timestamps rec100)"
  by (auto simp: rec100_def)

lemma rec100_not_in_timestamps: "101 / 20 \<notin> set (timestamps rec100)"
proof
  assume "101 / 20 \<in> set (timestamps rec100)"
  then obtain k :: nat where "real k * 2 = 101" by (auto simp: rec100_def)
  then have "real (2 * k) = real 101" by simp
  then have "2 * k = 101" by (simp only: of_nat_eq_iff)
  then show False by presburger
qed

text \<open>
  C4.  In timestamp mode (\<open>idx\<close> false) each reference point is resolved to the index of
  its first exact match in the timestamps: when every reference point has a match the call
  returns the matrix of the windows around these indices, and when some reference point
  has no exact match the whole call fails with the lookup error and returns no matrix.
\<close>

theorem timestamp_lookup:
  "((\<forall>r \<in> set refs. r \<in> set (timestamps d)) \<longrightarrow>
      (\<exists>trials. cont_var_peh d refs mm nm False = Inr (DataFrame trials)
         \<and> length trials = length refs
         \<and> (\<forall>k < length refs. \<exists>i < length (timestamps d).
               timestamps d ! i = refs ! k \<and> (\<forall>j<i. timestamps d ! j \<noteq> refs ! k) \<and>
               trials ! k = py_slice (signal d) (py_int (rnd64 (real i - rnd64 (\<bar>fst mm\<bar> * sr d))))
                              (py_int (rnd64 (real i + rnd64 (\<bar>snd mm\<bar> * sr d)))))))
   \<and> ((\<exists>r \<in> set refs. r \<notin> set (timestamps d)) \<longrightarrow>
        cont_var_peh d refs mm nm False = Inl IndexError)"
proof (intro conjI impI)
  assume all: "\<forall>r \<in> set refs. r \<in> set (timestamps d)"
  define trials where
    "trials = map (\<lambda>r. window_at d mm (real (first_idx (timestamps d) r))) refs"
  have call: "cont_var_peh d refs mm nm False = Inr (DataFrame trials)"
    using all by (simp add: cont_var_peh_def peh_loop_ts_found trials_def)
  have len: "length trials = length refs" by (simp add: trials_def)
  have rows: "\<forall>k < length refs. \<exists>i < length (timestamps d).
               timestamps d ! i = refs ! k \<and> (\<forall>j<i. timestamps d ! j \<noteq> refs ! k) \<and>
               trials ! k = py_slice (signal d) (py_int (rnd64 (real i - rnd64 (\<bar>fst mm\<bar> * sr d))))
                              (py_int (rnd64 (real i + rnd64 (\<bar>snd mm\<bar> * sr d))))"
  proof (intro allI impI)
    fix k assume k: "k < length refs"
    then have "refs ! k \<in> set (timestamps d)" using all by simp
    from first_idx_props [OF this] k
    show "\<exists>i < length (timestamps d).
               timestamps d ! i = refs ! k \<and> (\<forall>j<i. timestamps d ! j \<noteq> refs ! k) \<and>
               trials ! k = py_slice (signal d) (py_int (rnd64 (real i - rnd64 (\<bar>fst mm\<bar> * sr d))))
                              (py_int (rnd64 (real i + rnd64 (\<bar>snd mm\<bar> * sr d))))"
      by (intro exI [of _ "first_idx (timestamps d) (refs ! k)"])
         (simp add: trials_def window_at_def)
  qed
  from call len rows
  show "\<exists>trials. cont_var_peh d refs mm nm False = Inr (DataFrame trials)
         \<and> length trials = length refs
         \<and> (\<forall>k < length refs. \<exists>i < length (timestamps d).
               timestamps d ! i = refs ! k \<and> (\<forall>j<i. timestamps d ! j \<noteq> refs ! k) \<and>
               trials ! k = py_slice (signal d) (py_int (rnd64 (real i - rnd64 (\<bar>fst mm\<bar> * sr d))))
                              (py_int (rnd64 (real i + rnd64 (\<bar>snd mm\<bar> * sr d)))))"
    by blast
next
  assume "\<exists>r \<in> set refs. r \<notin> set (timestamps d)"
  from peh_loop_ts_missing [OF this]
  show "cont_var_peh d refs mm nm False = Inl IndexError"
    by (simp add: cont_var_peh_def)
qed

theorem timestamp_lookup_witness:
  "cont_var_peh rec100 [5, 101 / 20] (1, 1) None False = Inl IndexError
   \<and> (\<exists>trials. cont_var_peh rec100 [5] (1, 1) None False = Inr (DataFrame trials)
         \<and> length trials = 1)"
proof -
  have miss: "\<exists>r \<in> set [5, 101 / 20]. r \<notin> set (timestamps rec100)"
    using rec100_not_in_timestamps by simp
  have "real 50 / 10 \<in> set (timestamps rec100)" by (rule rec100_in_timestamps) simp
  then have hit: "\<forall>r \<in> set [5]. r \<in> set (timestamps rec100)" by simp
  from timestamp_lookup [of "[5, 101 / 20]" rec100 "(1, 1)" None] miss
  have a: "cont_var_peh rec100 [5, 101 / 20] (1, 1) None False = Inl IndexError" by blast
  from timestamp_lookup [of "[5]" rec100 "(1, 1)" None] hit
  have b: "\<exists>trials. cont_var_peh rec100 [5] (1, 1) None False = Inr (DataFrame trials)
         \<and> length trials = 1" by auto
  from a b show ?thesis by blast
qed

section \<open>The shape of the trial matrix\<close>

lemma max_len_eq_Max: "max_len rows = Max (insert 0 (length ` set rows))"
proof (rule Max_eqI [symmetric])
  show "finite (insert 0 (length ` set rows))" by simp
  show "\<And>y. y \<in> insert 0 (length ` set rows) \<Longrightarrow> y \<le> max_len rows"
    by (auto simp: max_len_ge)
  show "max_len rows \<in> insert 0 (length ` set rows)"
    using max_len_attained [of rows] by (metis image_eqI insertCI)
qed

lemma DataFrame_padding:
  assumes "k < length rows" "length (rows ! k) \<le> c" "c < length (DataFrame rows ! k)"
  shows "DataFrame rows ! k ! c = NaN"
  using assms by (simp add: nth_DataFrame nth_append)

lemma DataFrame_prefix:
  assumes "k < length rows"
  shows "take (length (rows ! k)) (DataFrame rows ! k) = rows ! k"
  using assms by (simp add: nth_DataFrame)

lemma rec100_first_idx: "i < 100 \<Longrightarrow> first_idx (timestamps rec100) (real i / 10) = i"
  using rec100_first [of i] by (simp add: first_idx_unique)

lemma rec100_two_events:
  "cont_var_peh rec100 [5, 1 / 5] (1, 1) None False =
     Inr (DataFrame [py_slice (signal rec100) 40 60, py_slice (signal rec100) (- 8) 12])"
proof -
  have in1: "real 50 / 10 \<in> set (timestamps rec100)" and in2: "real 2 / 10 \<in> set (timestamps rec100)"
    by (rule rec100_in_timestamps, simp)+
  have f1: "first_idx (timestamps rec100) (real 50 / 10) = 50"
    and f2: "first_idx (timestamps rec100) (real 2 / 10) = 2"
    by (rule rec100_first_idx, simp)+
  have w1: "window_at rec100 (1, 1) 50 = py_slice (signal rec100) 40 60"
  proof -
    have "py_int (rnd64 (50 - rnd64 (\<bar>1\<bar> * 10))) = 40"
      "py_int (rnd64 (50 + rnd64 (\<bar>1\<bar> * 10))) = 60"
      by (simp_all add: py_int_def rnd64_numeral)
    then show ?thesis by (simp add: window_at_def rec100_def)
  qed
  have all: "\<forall>r \<in> set [5, 1 / 5]. r \<in> set (timestamps rec100)"
    using in1 in2 by simp
  have "peh_loop_ts rec100 (1, 1) [5, 1 / 5] [] =
     Inr ([] @ map (\<lambda>r. window_at rec100 (1, 1) (real (first_idx (timestamps rec100) r))) [5, 1 / 5])"
    by (rule peh_loop_ts_found [OF all])
  moreover have "first_idx (timestamps rec100) 5 = 50" "first_idx (timestamps rec100) (1 / 5) = 2"
    using f1 f2 by simp_all
  ultimately show ?thesis
    by (simp add: cont_var_peh_def w1 rec100_near_start)
qed

text \<open>
  C5.  For every extraction call with \<open>n\<close> reference points that returns, the matrix has
  exactly \<open>n\<close> rows; row \<open>k\<close> starts with the window extracted for the \<open>k\<close>-th reference
  point (the input order); every row has as many columns as the longest extracted window
  has samples; and every position of a row beyond the length of its window holds \<open>NaN\<close>,
  the missing-value marker.
\<close>

theorem trial_matrix_shape:
  assumes "cont_var_peh d refs mm nm idx = Inr M"
  shows "\<exists>trials. length trials = length refs \<and> length M = length refs
     \<and> (\<forall>k < length refs.
          (\<exists>c. (if idx then c = refs ! k
                else (\<exists>i < length (timestamps d). c = real i \<and> timestamps d ! i = refs ! k \<and>
                        (\<forall>j<i. timestamps d ! j \<noteq> refs ! k)))
              \<and> trials ! k = py_slice (signal d) (py_int (rnd64 (c - rnd64 (\<bar>fst mm\<bar> * sr d))))
                               (py_int (rnd64 (c + rnd64 (\<bar>snd mm\<bar> * sr d)))))
          \<and> length (M ! k) = Max (insert 0 (length ` set trials))
          \<and> take (length (trials ! k)) (M ! k) = trials ! k
          \<and> (\<forall>c. length (trials ! k) \<le> c \<and> c < length (M ! k) \<longrightarrow> M ! k ! c = NaN))"
proof -
  define pos where "pos = (\<lambda>r. if idx then r else real (first_idx (timestamps d) r))"
  define trials where "trials = map (\<lambda>r. window_at d mm (pos r)) refs"
  have M: "M = DataFrame trials" and found: "\<not> idx \<Longrightarrow> \<forall>r \<in> set refs. r \<in> set (timestamps d)"
  proof -
    show "M = DataFrame trials"
    proof (cases idx)
      case True
      with assms show ?thesis by (simp add: cont_var_peh_idx_rows trials_def pos_def)
    next
      case False
      with assms have "cont_var_peh d refs mm nm False = Inr M" by simp
      from cont_var_peh_ts_rows [OF this] False show ?thesis by (simp add: trials_def pos_def)
    qed
    show "\<not> idx \<Longrightarrow> \<forall>r \<in> set refs. r \<in> set (timestamps d)"
    proof -
      assume "\<not> idx"
      with assms have "cont_var_peh d refs mm nm False = Inr M" by simp
      from cont_var_peh_ts_rows [OF this] show ?thesis by simp
    qed
  qed
  have len: "length trials = length refs" by (simp add: trials_def)
  have lenM: "length M = length refs" by (simp add: M length_DataFrame len)
  have row: "\<forall>k < length refs.
          (\<exists>c. (if idx then c = refs ! k
                else (\<exists>i < length (timestamps d). c = real i \<and> timestamps d ! i = refs ! k \<and>
                        (\<forall>j<i. timestamps d ! j \<noteq> refs ! k)))
              \<and> trials ! k = py_slice (signal d) (py_int (rnd64 (c - rnd64 (\<bar>fst mm\<bar> * sr d))))
                               (py_int (rnd64 (c + rnd64 (\<bar>snd mm\<bar> * sr d)))))
          \<and> length (M ! k) = Max (insert 0 (length ` set trials))
          \<and> take (length (trials ! k)) (M ! k) = trials ! k
          \<and> (\<forall>c. length (trials ! k) \<le> c \<and> c < length (M ! k) \<longrightarrow> M ! k ! c = NaN)"
  proof (intro allI impI)
    fix k assume k: "k < length refs"
    then have kt: "k < length trials" by (simp add: len)
    have tk: "trials ! k = py_slice (signal d) (py_int (rnd64 (pos (refs ! k) - rnd64 (\<bar>fst mm\<bar> * sr d))))
                               (py_int (rnd64 (pos (refs ! k) + rnd64 (\<bar>snd mm\<bar> * sr d))))"
      using k by (simp add: trials_def window_at_def)
    have p: "if idx then pos (refs ! k) = refs ! k
             else (\<exists>i < length (timestamps d). pos (refs ! k) = real i \<and>
                     timestamps d ! i = refs ! k \<and> (\<forall>j<i. timestamps d ! j \<noteq> refs ! k))"
    proof (cases idx)
      case True then show ?thesis by (simp add: pos_def)
    next
      case False
      with found k have "refs ! k \<in> set (timestamps d)" by simp
      from first_idx_props [OF this] False show ?thesis by (auto simp: pos_def)
    qed
    have a: "\<exists>c. (if idx then c = refs ! k
                else (\<exists>i < length (timestamps d). c = real i \<and> timestamps d ! i = refs ! k \<and>
                        (\<forall>j<i. timestamps d ! j \<noteq> refs ! k)))
              \<and> trials ! k = py_slice (signal d) (py_int (rnd64 (c - rnd64 (\<bar>fst mm\<bar> * sr d))))
                               (py_int (rnd64 (c + rnd64 (\<bar>snd mm\<bar> * sr d))))"
      using p tk by (intro exI [of _ "pos (refs ! k)"]) simp
    have b: "length (M ! k) = Max (insert 0 (length ` set trials))"
      using kt by (simp add: M length_nth_DataFrame max_len_eq_Max)
    have c: "take (length (trials ! k)) (M ! k) = trials ! k"
      unfolding M by (rule DataFrame_prefix [OF kt])
    have e: "\<forall>c. length (trials ! k) \<le> c \<and> c < length (M ! k) \<longrightarrow> M ! k ! c = NaN"
      unfolding M using DataFrame_padding [OF kt] by blast
    from a b c e
    show "(\<exists>c. (if idx then c = refs ! k
                else (\<exists>i < length (timestamps d). c = real i \<and> timestamps d ! i = refs ! k \<and>
                        (\<forall>j<i. timestamps d ! j \<noteq> refs ! k)))
              \<and> trials ! k = py_slice (signal d) (py_int (rnd64 (c - rnd64 (\<bar>fst mm\<bar> * sr d))))
                               (py_int (rnd64 (c + rnd64 (\<bar>snd mm\<bar> * sr d)))))
          \<and> length (M ! k) = Max (insert 0 (length ` set trials))
          \<and> take (length (trials ! k)) (M ! k) = trials ! k
          \<and> (\<forall>c. length (trials ! k) \<le> c \<and> c < length (M ! k) \<longrightarrow> M ! k ! c = NaN)"
      by blast
  qed
  from len lenM row show ?thesis by blast
qed

theorem trial_matrix_shape_witness:
  "cont_var_peh rec100 [5, 1 / 5] (1, 1) None False =
     Inr (DataFrame [py_slice (signal rec100) 40 60, py_slice (signal rec100) (- 8) 12])
   \<and> length (DataFrame [py_slice (signal rec100) 40 60, py_slice (signal rec100) (- 8) 12])
       = length [5, 1 / 5 :: real]"
proof -
  note h = rec100_two_events
  from trial_matrix_shape [OF h]
  have "length (DataFrame [py_slice (signal rec100) 40 60, py_slice (signal rec100) (- 8) 12])
       = length [5, 1 / 5 :: real]"
    by blast
  with h show ?thesis by blast
qed

section \<open>Index mode\<close>

lemma rec100_slices:
  "py_slice (signal rec100) 4 6 = [Fin 4, Fin 5]"
  "py_slice (signal rec100) (- 4) (- 2) = [Fin 96, Fin 97]"
  "py_slice (signal rec100) 199 201 = []"
proof -
  have "py_slice (signal rec100) 4 6 = map (\<lambda>k. Fin (real k)) [nat 4..<nat 6]"
    by (rule rec100_window) simp_all
  then show "py_slice (signal rec100) 4 6 = [Fin 4, Fin 5]" by (simp add: upt_rec)
  have "py_slice (signal rec100) (- 4) (- 2) = py_slice (signal rec100) 96 98"
    by (simp add: py_slice_def slice_bound_def rec100_def)
  also have "\<dots> = map (\<lambda>k. Fin (real k)) [nat 96..<nat 98]"
    by (rule rec100_window) simp_all
  finally show "py_slice (signal rec100) (- 4) (- 2) = [Fin 96, Fin 97]" by (simp add: upt_rec)
  show "py_slice (signal rec100) 199 201 = []"
    by (simp add: py_slice_def slice_bound_def rec100_def)
qed

text \<open>
  C10.  In index mode (\<open>idx\<close> true) the reference indices are not validated: for every
  list of reference indices, negative ones and ones at or beyond the length of the signal
  included, the call returns a matrix and raises no error, and the row of a reference
  index is whatever the slice around it yields, possibly empty or shortened.
\<close>

theorem index_mode_no_validation:
  "cont_var_peh d refs mm nm True =
     Inr (DataFrame (map (\<lambda>r. py_slice (signal d) (py_int (rnd64 (r - rnd64 (\<bar>fst mm\<bar> * sr d))))
                                  (py_int (rnd64 (r + rnd64 (\<bar>snd mm\<bar> * sr d))))) refs))"
proof -
  have "window_at d mm = (\<lambda>r. py_slice (signal d) (py_int (rnd64 (r - rnd64 (\<bar>fst mm\<bar> * sr d))))
                                  (py_int (rnd64 (r + rnd64 (\<bar>snd mm\<bar> * sr d)))))"
    by (rule ext) (simp add: window_at_def)
  then show ?thesis by (simp add: cont_var_peh_idx_rows)
qed

theorem index_mode_no_validation_witness:
  "cont_var_peh rec100 [5, - 3, 200] (1 / 10, 1 / 10) None True =
     Inr [[Fin 4, Fin 5], [Fin 96, Fin 97], [NaN, NaN]]"
proof -
  have sr: "sr rec100 = 10" by (simp add: rec100_def)
  have df: "DataFrame [[Fin 4, Fin 5], [Fin 96, Fin 97], []] =
              [[Fin 4, Fin 5], [Fin 96, Fin 97], [NaN, NaN]]"
    by (simp add: DataFrame_def max_len_def)
  show ?thesis
    using index_mode_no_validation [of rec100 "[5, - 3, 200]" "(1 / 10, 1 / 10)" None]
    by (simp add: sr py_int_def rec100_slices df rnd64_numeral rnd64_neg_numeral rnd64_one)
qed

section \<open>Z-scoring\<close>

declare pairwise_sum.simps [simp del] add_blocks.simps [simp del]
















lemma store_of_apply: "store_of obj p = obj"
  by (simp add: store_of_def)
























section \<open>The conditioning methods and the store\<close>

lemma debleach_result:
  assumes "debleach butter filtfilt self low h = Inr (r, h')"
  shows "\<exists>b a y. butter 3 low High (sr (h self)) = Inr (b, a) \<and>
           filtfilt b a (signal (h self)) Even = Inr y \<and>
           r = self \<and> h' = h(self := (h self)\<lparr>signal := y\<rparr>)"
  using assms by (auto simp: debleach_def split: sum.splits prod.splits)

lemma lp_filter_result:
  assumes "lp_filter butter filtfilt self high h = Inr (r, h')"
  shows "\<exists>b a y. butter 3 high Low (sr (h self)) = Inr (b, a) \<and>
           filtfilt b a (signal (h self)) Even = Inr y \<and>
           r = self \<and> h' = h(self := (h self)\<lparr>signal := y\<rparr>)"
  using assms by (auto simp: lp_filter_def split: sum.splits prod.splits)

lemma zscore_result:
  assumes "zscore self h = (r, h')"
  shows "r = self \<and>
         h' = h(self := (h self)\<lparr>signal :=
                map (\<lambda>x. fdiv fl64 (fsub fl64 x (np_mean fl64 (signal (h self))))
                           (np_std fl64 (signal (h self))))
                  (signal (h self))\<rparr>)"
  using assms by (auto simp: zscore_def zscore_rd_def Let_def)

lemma only_signal_changed_upd: "only_signal_changed self h (h(self := (h self)\<lparr>signal := y\<rparr>))"
  by (simp add: only_signal_changed_def)

lemma unit_filtfilt_length:
  "\<forall>b a x p y. unit_filtfilt b a x p = Inr y \<longrightarrow> length y = length x"
  by (simp add: unit_filtfilt_def)

lemma rec100_lengths:
  "length (signal rec100) = 100" "length (timestamps rec100) = 100" "sr rec100 = 10"
  by (simp_all add: rec100_def)

lemma unit_debleach_rec100:
  "debleach unit_butter unit_filtfilt 0 1 (store_of rec100) =
     Inr (0, (store_of rec100)(0 := rec100\<lparr>signal := signal rec100\<rparr>))"
  by (simp add: debleach_def unit_butter_def unit_filtfilt_def rec100_lengths store_of_apply)

text \<open>
  C7.  For every object whose signal is as long as its timestamps, each conditioning
  method that returns (\<open>debleach\<close>, \<open>lp_filter\<close>, \<open>zscore\<close>) leaves an object whose signal
  has the length it had before, which is the length of its timestamps.  For the two
  filters this rests on the contract of the library's \<open>filtfilt\<close>, a parameter here: its
  output has the length of its input.
\<close>

theorem conditioning_keeps_length:
  assumes "\<forall>b a x p y. filtfilt b a x p = Inr y \<longrightarrow> length y = length x"
    and "length (signal (h self)) = length (timestamps (h self))"
  shows "(\<forall>r h'. debleach butter filtfilt self low h = Inr (r, h') \<longrightarrow>
            length (signal (h' r)) = length (signal (h self)) \<and>
            length (signal (h' r)) = length (timestamps (h' r)))
       \<and> (\<forall>r h'. lp_filter butter filtfilt self high h = Inr (r, h') \<longrightarrow>
            length (signal (h' r)) = length (signal (h self)) \<and>
            length (signal (h' r)) = length (timestamps (h' r)))
       \<and> (\<forall>r h'. zscore self h = (r, h') \<longrightarrow>
            length (signal (h' r)) = length (signal (h self)) \<and>
            length (signal (h' r)) = length (timestamps (h' r)))"
proof (intro conjI allI impI)
  fix r h' assume "debleach butter filtfilt self low h = Inr (r, h')"
  from debleach_result [OF this] obtain b a y where
    y: "filtfilt b a (signal (h self)) Even = Inr y" and r: "r = self"
    and h': "h' = h(self := (h self)\<lparr>signal := y\<rparr>)" by blast
  from assms(1) y have "length y = length (signal (h self))" by blast
  with assms(2) r h'
  show "length (signal (h' r)) = length (signal (h self))"
    and "length (signal (h' r)) = length (timestamps (h' r))" by simp_all
next
  fix r h' assume "lp_filter butter filtfilt self high h = Inr (r, h')"
  from lp_filter_result [OF this] obtain b a y where
    y: "filtfilt b a (signal (h self)) Even = Inr y" and r: "r = self"
    and h': "h' = h(self := (h self)\<lparr>signal := y\<rparr>)" by blast
  from assms(1) y have "length y = length (signal (h self))" by blast
  with assms(2) r h'
  show "length (signal (h' r)) = length (signal (h self))"
    and "length (signal (h' r)) = length (timestamps (h' r))" by simp_all
next
  fix r h' assume "zscore self h = (r, h')"
  from zscore_result [OF this] assms(2)
  show "length (signal (h' r)) = length (signal (h self))"
    and "length (signal (h' r)) = length (timestamps (h' r))" by simp_all
qed

theorem conditioning_keeps_length_witness:
  "length (signal (store_of rec100 0)) = length (timestamps (store_of rec100 0))
   \<and> debleach unit_butter unit_filtfilt 0 1 (store_of rec100) =
        Inr (0, (store_of rec100)(0 := rec100\<lparr>signal := signal rec100\<rparr>))
   \<and> length (signal (((store_of rec100)(0 := rec100\<lparr>signal := signal rec100\<rparr>)) 0))
        = length (timestamps (((store_of rec100)(0 := rec100\<lparr>signal := signal rec100\<rparr>)) 0))"
proof -
  have inv: "length (signal (store_of rec100 0)) = length (timestamps (store_of rec100 0))"
    by (simp add: rec100_lengths store_of_apply)
  note run = unit_debleach_rec100
  from conditioning_keeps_length [where filtfilt = unit_filtfilt and h = "store_of rec100"
      and self = 0 and butter = unit_butter and low = 1 and high = 1,
      OF unit_filtfilt_length inv]
  have d: "\<forall>r h'. debleach unit_butter unit_filtfilt 0 1 (store_of rec100) = Inr (r, h') \<longrightarrow>
            length (signal (h' r)) = length (signal (store_of rec100 0)) \<and>
            length (signal (h' r)) = length (timestamps (h' r))"
    by (rule conjunct1)
  have "length (signal (((store_of rec100)(0 := rec100\<lparr>signal := signal rec100\<rparr>)) 0))
        = length (timestamps (((store_of rec100)(0 := rec100\<lparr>signal := signal rec100\<rparr>)) 0))"
    by (rule conjunct2 [OF d [rule_format, OF run]])
  with inv run show ?thesis by blast
qed

text \<open>
  C8.  Each conditioning method that returns (\<open>debleach\<close>, \<open>lp_filter\<close>, \<open>zscore\<close>)
  returns the reference it was called on, so that calls can be chained, and changes
  nothing in the store but the signal of that object: its timestamps, sampling rate, name
  and annotations, and every other object, are as before.  This holds whatever the
  library's filter design and application compute.
\<close>

theorem conditioning_frame:
  "(\<forall>r h'. debleach butter filtfilt self low h = Inr (r, h') \<longrightarrow>
       r = self \<and> only_signal_changed self h h')
   \<and> (\<forall>r h'. lp_filter butter filtfilt self high h = Inr (r, h') \<longrightarrow>
       r = self \<and> only_signal_changed self h h')
   \<and> (\<forall>r h'. zscore self h = (r, h') \<longrightarrow>
       r = self \<and> only_signal_changed self h h')"
proof (intro conjI allI impI)
  fix r h' assume "debleach butter filtfilt self low h = Inr (r, h')"
  from debleach_result [OF this]
  show "r = self" and "only_signal_changed self h h'"
    by (auto simp: only_signal_changed_upd)
next
  fix r h' assume "lp_filter butter filtfilt self high h = Inr (r, h')"
  from lp_filter_result [OF this]
  show "r = self" and "only_signal_changed self h h'"
    by (auto simp: only_signal_changed_upd)
next
  fix r h' assume "zscore self h = (r, h')"
  from zscore_result [OF this]
  show "r = self" and "only_signal_changed self h h'"
    by (auto simp: only_signal_changed_upd)
qed

theorem conditioning_frame_witness:
  "debleach unit_butter unit_filtfilt 0 1 (store_of rec100) =
        Inr (0, (store_of rec100)(0 := rec100\<lparr>signal := signal rec100\<rparr>))
   \<and> only_signal_changed 0 (store_of rec100) ((store_of rec100)(0 := rec100\<lparr>signal := signal rec100\<rparr>))
   \<and> fst (zscore 0 (store_of two_samples)) = 0
   \<and> only_signal_changed 0 (store_of two_samples) (snd (zscore 0 (store_of two_samples)))"
proof -
  note run = unit_debleach_rec100
  from conditioning_frame [where butter = unit_butter and filtfilt = unit_filtfilt
      and self = 0 and low = 1 and h = "store_of rec100"] run
  have a: "only_signal_changed 0 (store_of rec100) ((store_of rec100)(0 := rec100\<lparr>signal := signal rec100\<rparr>))"
    by blast
  have z: "zscore 0 (store_of two_samples) = (fst (zscore 0 (store_of two_samples)), snd (zscore 0 (store_of two_samples)))"
    by simp
  from conditioning_frame [where self = 0 and h = "store_of two_samples"] z
  have b: "fst (zscore 0 (store_of two_samples)) = 0
         \<and> only_signal_changed 0 (store_of two_samples) (snd (zscore 0 (store_of two_samples)))"
    by blast
  from run a b show ?thesis by blast
qed

section \<open>The calls of the filter library\<close>

lemma debleach_result_iff:
  "debleach butter filtfilt self low h = Inr (r, h') \<longleftrightarrow>
     (\<exists>b a y. butter 3 low High (sr (h self)) = Inr (b, a) \<and>
        filtfilt b a (signal (h self)) Even = Inr y \<and>
        r = self \<and> h' = h(self := (h self)\<lparr>signal := y\<rparr>))"
  by (auto simp: debleach_def split: sum.splits prod.splits)

lemma lp_filter_result_iff:
  "lp_filter butter filtfilt self high h = Inr (r, h') \<longleftrightarrow>
     (\<exists>b a y. butter 3 high Low (sr (h self)) = Inr (b, a) \<and>
        filtfilt b a (signal (h self)) Even = Inr y \<and>
        r = self \<and> h' = h(self := (h self)\<lparr>signal := y\<rparr>))"
  by (auto simp: lp_filter_def split: sum.splits prod.splits)

lemma debleach_cong:
  assumes "butter' 3 low High (sr (h self)) = butter 3 low High (sr (h self))"
    and "\<forall>b a. filtfilt' b a (signal (h self)) Even = filtfilt b a (signal (h self)) Even"
  shows "debleach butter' filtfilt' self low h = debleach butter filtfilt self low h"
  using assms by (simp add: debleach_def split: sum.splits prod.splits)

lemma lp_filter_cong:
  assumes "butter' 3 high Low (sr (h self)) = butter 3 high Low (sr (h self))"
    and "\<forall>b a. filtfilt' b a (signal (h self)) Even = filtfilt b a (signal (h self)) Even"
  shows "lp_filter butter' filtfilt' self high h = lp_filter butter filtfilt self high h"
  using assms by (simp add: lp_filter_def split: sum.splits prod.splits)

text \<open>
  C9.  \<open>debleach\<close> designs its filter by one call of the library's Butterworth design, of
  order 3, of the high-pass kind, with the critical frequency it is given and the sampling
  rate of the recording as the sampling frequency (so the frequency is in the units of the
  sampling rate, not normalised), and stores what the library's forward-and-backward
  application of this filter to the signal returns with even padding.  \<open>lp_filter\<close> does
  the same with the low-pass kind.  The order, the application and the padding are not
  parameters of the methods, and the result depends on the library through these two
  calls alone.
\<close>

theorem filter_design_calls:
  "(\<forall>r h'. debleach butter filtfilt self low h = Inr (r, h') \<longleftrightarrow>
       (\<exists>b a y. butter 3 low High (sr (h self)) = Inr (b, a) \<and>
          filtfilt b a (signal (h self)) Even = Inr y \<and>
          r = self \<and> h' = h(self := (h self)\<lparr>signal := y\<rparr>)))
   \<and> (\<forall>r h'. lp_filter butter filtfilt self high h = Inr (r, h') \<longleftrightarrow>
       (\<exists>b a y. butter 3 high Low (sr (h self)) = Inr (b, a) \<and>
          filtfilt b a (signal (h self)) Even = Inr y \<and>
          r = self \<and> h' = h(self := (h self)\<lparr>signal := y\<rparr>)))
   \<and> (butter' 3 low High (sr (h self)) = butter 3 low High (sr (h self)) \<and>
       (\<forall>b a. filtfilt' b a (signal (h self)) Even = filtfilt b a (signal (h self)) Even) \<longrightarrow>
       debleach butter' filtfilt' self low h = debleach butter filtfilt self low h)
   \<and> (butter' 3 high Low (sr (h self)) = butter 3 high Low (sr (h self)) \<and>
       (\<forall>b a. filtfilt' b a (signal (h self)) Even = filtfilt b a (signal (h self)) Even) \<longrightarrow>
       lp_filter butter' filtfilt' self high h = lp_filter butter filtfilt self high h)"
  using debleach_result_iff [of butter filtfilt self low h]
    lp_filter_result_iff [of butter filtfilt self high h]
    debleach_cong [of butter' low h self butter filtfilt' filtfilt]
    lp_filter_cong [of butter' high h self butter filtfilt' filtfilt]
  by blast

theorem filter_design_calls_witness:
  "debleach probe_butter probe_filtfilt 0 2 (store_of rec100) =
     Inr (0, (store_of rec100)(0 := (store_of rec100 0)\<lparr>signal :=
            [Fin 3, Fin 2, Fin 1, Fin 10, Fin 2]\<rparr>))
   \<and> lp_filter probe_butter probe_filtfilt 0 4 (store_of rec100) =
     Inr (0, (store_of rec100)(0 := (store_of rec100 0)\<lparr>signal :=
            [Fin 3, Fin 4, Fin 2, Fin 10, Fin 2]\<rparr>))"
proof -
  note t = filter_design_calls [where butter = probe_butter and filtfilt = probe_filtfilt
      and self = 0 and h = "store_of rec100" and low = 2 and high = 4
      and butter' = probe_butter and filtfilt' = probe_filtfilt]
  from t have d: "\<forall>r h'. debleach probe_butter probe_filtfilt 0 2 (store_of rec100) = Inr (r, h') \<longleftrightarrow>
       (\<exists>b a y. probe_butter 3 2 High (sr (store_of rec100 0)) = Inr (b, a) \<and>
          probe_filtfilt b a (signal (store_of rec100 0)) Even = Inr y \<and>
          r = 0 \<and> h' = (store_of rec100)(0 := (store_of rec100 0)\<lparr>signal := y\<rparr>))"
    by (rule conjunct1)
  from t have l: "\<forall>r h'. lp_filter probe_butter probe_filtfilt 0 4 (store_of rec100) = Inr (r, h') \<longleftrightarrow>
       (\<exists>b a y. probe_butter 3 4 Low (sr (store_of rec100 0)) = Inr (b, a) \<and>
          probe_filtfilt b a (signal (store_of rec100 0)) Even = Inr y \<and>
          r = 0 \<and> h' = (store_of rec100)(0 := (store_of rec100 0)\<lparr>signal := y\<rparr>))"
    by (rule conjunct2 [THEN conjunct1])
  have b1: "probe_butter 3 2 High (sr (store_of rec100 0)) = Inr ([Fin 3, Fin 2], [Fin 1, Fin 10])"
    by (simp add: probe_butter_def store_of_apply rec100_def)
  have f1: "probe_filtfilt [Fin 3, Fin 2] [Fin 1, Fin 10] (signal (store_of rec100 0)) Even
              = Inr [Fin 3, Fin 2, Fin 1, Fin 10, Fin 2]"
    by (simp add: probe_filtfilt_def)
  have b2: "probe_butter 3 4 Low (sr (store_of rec100 0)) = Inr ([Fin 3, Fin 4], [Fin 2, Fin 10])"
    by (simp add: probe_butter_def store_of_apply rec100_def)
  have f2: "probe_filtfilt [Fin 3, Fin 4] [Fin 2, Fin 10] (signal (store_of rec100 0)) Even
              = Inr [Fin 3, Fin 4, Fin 2, Fin 10, Fin 2]"
    by (simp add: probe_filtfilt_def)
  from d b1 f1 have 1: "debleach probe_butter probe_filtfilt 0 2 (store_of rec100) =
     Inr (0, (store_of rec100)(0 := (store_of rec100 0)\<lparr>signal :=
            [Fin 3, Fin 2, Fin 1, Fin 10, Fin 2]\<rparr>))"
    by blast
  from l b2 f2 have 2: "lp_filter probe_butter probe_filtfilt 0 4 (store_of rec100) =
     Inr (0, (store_of rec100)(0 := (store_of rec100 0)\<lparr>signal :=
            [Fin 3, Fin 4, Fin 2, Fin 10, Fin 2]\<rparr>))"
    by blast
  from 1 2 show ?thesis by blast
qed

end
